theory Spec2Isabelle
  imports Main "HOL-Library.Sublist"
begin

section \<open>Data model\<close>

text \<open>
  The exceptions the helpers can meet. \<open>ClientError\<close> is botocore's exception for a
  failed service call (the only one the retry predicate and the \<open>except\<close> clauses of
  the helpers name); \<open>ValueError\<close> is raised by the helpers themselves when a group or
  a launch template version is not found; \<open>KeyError\<close> and \<open>IndexError\<close> come from
  subscripting a response; \<open>OtherError\<close> is any other exception an SDK call raises;
  \<open>RetryError\<close> is the exception of the tenacity library, which carries the exception
  of the last attempt.
\<close>

datatype error =
    ClientError string
  | ValueError
  | KeyError
  | IndexError
  | OtherError string
  | RetryError error

fun is_ClientError :: "error \<Rightarrow> bool" where
  "is_ClientError (ClientError c) = True"
| "is_ClientError e = False"

record launch_template =
  LaunchTemplateId :: string
  Version :: string

text \<open>The keys of the group description that the helpers read.\<close>

record asg_details =
  AutoScalingGroupName :: string
  LaunchTemplate :: "launch_template option"
  DesiredCapacity :: int
  MinSize :: int
  MaxSize :: int

record asg_instance =
  InstanceId :: string
  InstanceGroupName :: string
  LifecycleState :: string

record instance_refresh_config =
  min_healthy_percentage :: int
  max_healthy_percentage :: int
  instance_warmup :: int
  skip_matching :: bool

record config =
  aws_region :: string
  auto_scaling_group :: string
  ami_id :: string
  desired_capacity :: int
  min_size :: int
  max_size :: int
  instance_refresh :: instance_refresh_config

text \<open>
  What \<open>update_auto_scaling_group\<close> returns when it updated the group: the number of
  the version it created (an integer of the response), or the version string of the
  group's launch template.
\<close>

datatype version_token = VersionNumber int | VersionString string

section \<open>The control plane and the observable events\<close>

datatype remote_call =
    DescribeAutoScalingGroups string
  | DescribeLaunchTemplateVersions string string
  | CreateLaunchTemplateVersion string string string
  | UpdateAutoScalingGroup string int int int "launch_template option"
  | StartInstanceRefresh string instance_refresh_config
  | DescribeInstanceRefreshes string string
  | DescribeAutoScalingInstances
  | TerminateInstances string

fun mutating :: "remote_call \<Rightarrow> bool" where
  "mutating (CreateLaunchTemplateVersion i v a) = True"
| "mutating (UpdateAutoScalingGroup n d mn mx lt) = True"
| "mutating (StartInstanceRefresh n c) = True"
| "mutating (TerminateInstances i) = True"
| "mutating c = False"

datatype logger = RootLogger | DeploymentLogger

datatype level = INFO | ERROR

datatype logarg = S string | E error | V version_token | A asg_details

text \<open>
  A log event keeps the logger, the level, the text of the format string as the source
  has it, and the values interpolated into it.
\<close>

datatype event =
    Call remote_call
  | Sleep nat
  | Log logger level string "logarg list"

text \<open>
  The control plane is a script: for each remote operation the list of the responses
  its successive calls get, an exception (\<open>Inl\<close>) or a response (\<open>Inr\<close>). The trace is
  everything the program did so far, oldest first.
\<close>

record world =
  describe_auto_scaling_groups_q :: "(error + asg_details list option) list"
  describe_launch_template_versions_q :: "(error + string option list option) list"
  create_launch_template_version_q :: "(error + int) list"
  update_auto_scaling_group_q :: "(error + unit) list"
  start_instance_refresh_q :: "(error + string) list"
  describe_instance_refreshes_q :: "(error + string list) list"
  describe_auto_scaling_instances_q :: "(error + asg_instance list) list"
  terminate_instances_q :: "(error + unit) list"
  trace :: "event list"

text \<open>
  An action runs in a world and gives a result and the world after it; \<open>None\<close> means
  the script ended before the action did (the program is still waiting for a response).
\<close>

type_synonym 'a action = "world \<Rightarrow> ((error + 'a) \<times> world) option"

definition emit :: "event \<Rightarrow> world \<Rightarrow> world" where
  "emit e w = w\<lparr>trace := trace w @ [e]\<rparr>"

definition sleep :: "nat \<Rightarrow> world \<Rightarrow> world" where
  "sleep n w = emit (Sleep n) w"

definition logging_info :: "string \<Rightarrow> logarg list \<Rightarrow> world \<Rightarrow> world" where
  "logging_info msg args w = emit (Log RootLogger INFO msg args) w"

definition logging_error :: "string \<Rightarrow> logarg list \<Rightarrow> world \<Rightarrow> world" where
  "logging_error msg args w = emit (Log RootLogger ERROR msg args) w"

definition logger_info :: "string \<Rightarrow> logarg list \<Rightarrow> world \<Rightarrow> world" where
  "logger_info msg args w = emit (Log DeploymentLogger INFO msg args) w"

definition logger_error :: "string \<Rightarrow> logarg list \<Rightarrow> world \<Rightarrow> world" where
  "logger_error msg args w = emit (Log DeploymentLogger ERROR msg args) w"

definition describe_auto_scaling_groups :: "string \<Rightarrow> (asg_details list option) action" where
  "describe_auto_scaling_groups name w =
     (case describe_auto_scaling_groups_q w of
        [] \<Rightarrow> None
      | r # q \<Rightarrow> Some (r, emit (Call (DescribeAutoScalingGroups name))
                            (w\<lparr>describe_auto_scaling_groups_q := q\<rparr>)))"

definition describe_launch_template_versions ::
  "string \<Rightarrow> string \<Rightarrow> (string option list option) action" where
  "describe_launch_template_versions lt_id ver w =
     (case describe_launch_template_versions_q w of
        [] \<Rightarrow> None
      | r # q \<Rightarrow> Some (r, emit (Call (DescribeLaunchTemplateVersions lt_id ver))
                            (w\<lparr>describe_launch_template_versions_q := q\<rparr>)))"

definition create_launch_template_version :: "string \<Rightarrow> string \<Rightarrow> string \<Rightarrow> int action" where
  "create_launch_template_version lt_id src_ver img w =
     (case create_launch_template_version_q w of
        [] \<Rightarrow> None
      | r # q \<Rightarrow> Some (r, emit (Call (CreateLaunchTemplateVersion lt_id src_ver img))
                            (w\<lparr>create_launch_template_version_q := q\<rparr>)))"

definition autoscaling_update_auto_scaling_group ::
  "string \<Rightarrow> int \<Rightarrow> int \<Rightarrow> int \<Rightarrow> launch_template option \<Rightarrow> unit action" where
  "autoscaling_update_auto_scaling_group name d mn mx lt w =
     (case update_auto_scaling_group_q w of
        [] \<Rightarrow> None
      | r # q \<Rightarrow> Some (r, emit (Call (UpdateAutoScalingGroup name d mn mx lt))
                            (w\<lparr>update_auto_scaling_group_q := q\<rparr>)))"

definition autoscaling_start_instance_refresh ::
  "string \<Rightarrow> instance_refresh_config \<Rightarrow> string action" where
  "autoscaling_start_instance_refresh name prefs w =
     (case start_instance_refresh_q w of
        [] \<Rightarrow> None
      | r # q \<Rightarrow> Some (r, emit (Call (StartInstanceRefresh name prefs))
                            (w\<lparr>start_instance_refresh_q := q\<rparr>)))"

definition describe_instance_refreshes :: "string \<Rightarrow> string \<Rightarrow> (string list) action" where
  "describe_instance_refreshes name rid w =
     (case describe_instance_refreshes_q w of
        [] \<Rightarrow> None
      | r # q \<Rightarrow> Some (r, emit (Call (DescribeInstanceRefreshes name rid))
                            (w\<lparr>describe_instance_refreshes_q := q\<rparr>)))"

definition describe_auto_scaling_instances :: "(asg_instance list) action" where
  "describe_auto_scaling_instances w =
     (case describe_auto_scaling_instances_q w of
        [] \<Rightarrow> None
      | r # q \<Rightarrow> Some (r, emit (Call DescribeAutoScalingInstances)
                            (w\<lparr>describe_auto_scaling_instances_q := q\<rparr>)))"

definition terminate_instances :: "string \<Rightarrow> unit action" where
  "terminate_instances iid w =
     (case terminate_instances_q w of
        [] \<Rightarrow> None
      | r # q \<Rightarrow> Some (r, emit (Call (TerminateInstances iid))
                            (w\<lparr>terminate_instances_q := q\<rparr>)))"

section \<open>The retry policy\<close>

text \<open>
  Modelled from the spec: the \<open>retry\<close> decorator of the tenacity library, which is not
  part of the sources. Its arguments are the source's: \<open>stop_after_attempt(3)\<close>,
  \<open>wait_exponential(multiplier=1, min=2, max=10)\<close>,
  \<open>retry_if_exception_type(ClientError)\<close>. As the spec has it, a failed attempt
  classified transient is followed by a wait of \<open>min(10, max(2, 2^(attempt-1)))\<close> and
  another attempt, up to 3 attempts in all; any other failure propagates at once. On
  one point the definition follows the decorator as the source calls it and not the
  sentence of the spec: the source passes no \<open>reraise=True\<close>, so when the last attempt
  fails with a \<open>ClientError\<close> too the decorator raises its own \<open>RetryError\<close>, which
  carries that error, and not the error itself. \<open>RetryError\<close> is no \<open>ClientError\<close>: a
  decorated method that calls another one does not retry on it.
\<close>

definition stop_after_attempt :: nat where
  "stop_after_attempt = 3"

definition wait_exponential :: "nat \<Rightarrow> nat" where
  "wait_exponential attempt = min 10 (max 2 (2 ^ (attempt - 1)))"

fun retrying :: "nat \<Rightarrow> nat \<Rightarrow> 'a action \<Rightarrow> 'a action" where
  "retrying 0 attempt f w =
     (case f w of
        None \<Rightarrow> None
      | Some (r, w') \<Rightarrow>
          (case r of
             Inl e \<Rightarrow> if is_ClientError e then Some (Inl (RetryError e), w') else Some (r, w')
           | Inr x \<Rightarrow> Some (r, w')))"
| "retrying (Suc left) attempt f w =
     (case f w of
        None \<Rightarrow> None
      | Some (r, w') \<Rightarrow>
          (case r of
             Inl e \<Rightarrow>
               if is_ClientError e
               then retrying left (Suc attempt) f (sleep (wait_exponential attempt) w')
               else Some (r, w')
           | Inr x \<Rightarrow> Some (r, w')))"

definition retry :: "'a action \<Rightarrow> 'a action" where
  "retry f = retrying (stop_after_attempt - 1) 1 f"

text \<open>
  \<open>except ClientError as e: logging.error(...); raise\<close>: a \<open>ClientError\<close> leaving the
  \<open>try\<close> block is logged and raised again; nothing else is caught.
\<close>

definition except_ClientError ::
  "string \<Rightarrow> ((error + 'a) \<times> world) option \<Rightarrow> ((error + 'a) \<times> world) option" where
  "except_ClientError msg res =
     (case res of
        None \<Rightarrow> None
      | Some (r, w) \<Rightarrow>
          (case r of
             Inl e \<Rightarrow> if is_ClientError e then Some (r, logging_error msg [E e] w)
                      else Some (r, w)
           | Inr x \<Rightarrow> Some (r, w)))"

section \<open>The helpers (aws\_helpers.py)\<close>

text \<open>
  \<open>initialize_aws_sdk\<close> logs a line and creates the two clients, which makes no remote
  call.
\<close>

definition initialize_aws_sdk :: "world \<Rightarrow> world" where
  "initialize_aws_sdk w = logging_info ''Initializing AWS SDK'' [] w"

definition get_current_asg_details_body :: "string \<Rightarrow> asg_details action" where
  "get_current_asg_details_body asg_name w =
     except_ClientError ''ClientError retrieving ASG details: {e}''
       (case describe_auto_scaling_groups asg_name
               (logging_info ''Retrieving details for Auto Scaling Group: {asg_name}''
                  [S asg_name] w) of
          None \<Rightarrow> None
        | Some (r, w1) \<Rightarrow>
            (case r of
               Inl e \<Rightarrow> Some (Inl e, w1)
             | Inr response \<Rightarrow>
                 (case response of
                    None \<Rightarrow> Some (Inl ValueError, w1)
                  | Some groups \<Rightarrow>
                      (case groups of
                         [] \<Rightarrow> Some (Inl ValueError, w1)
                       | g # gs \<Rightarrow> Some (Inr g, w1)))))"

definition get_current_asg_details :: "string \<Rightarrow> asg_details action" where
  "get_current_asg_details asg_name = retry (get_current_asg_details_body asg_name)"

definition get_current_ami_id_body :: "string \<Rightarrow> string \<Rightarrow> string action" where
  "get_current_ami_id_body launch_template_id launch_template_version w =
     except_ClientError ''ClientError retrieving AMI ID: {e}''
       (case describe_launch_template_versions launch_template_id launch_template_version
               (logging_info
                  ''Retrieving current AMI ID from launch template {launch_template_id} version {launch_template_version}''
                  [S launch_template_id, S launch_template_version] w) of
          None \<Rightarrow> None
        | Some (r, w1) \<Rightarrow>
            (case r of
               Inl e \<Rightarrow> Some (Inl e, w1)
             | Inr response \<Rightarrow>
                 (case response of
                    None \<Rightarrow> Some (Inl ValueError, w1)
                  | Some versions \<Rightarrow>
                      (case versions of
                         [] \<Rightarrow> Some (Inl ValueError, w1)
                       | v # vs \<Rightarrow>
                           (case v of
                              None \<Rightarrow> Some (Inl KeyError, w1)
                            | Some img \<Rightarrow> Some (Inr img, w1))))))"

definition get_current_ami_id :: "string \<Rightarrow> string \<Rightarrow> string action" where
  "get_current_ami_id launch_template_id launch_template_version =
     retry (get_current_ami_id_body launch_template_id launch_template_version)"

text \<open>
  \<open>str(new_version)\<close>: the decimal numeral of an integer.
\<close>

definition digit_char :: "nat \<Rightarrow> char" where
  "digit_char d = char_of (48 + d)"

function str_nat :: "nat \<Rightarrow> string" where
  "str_nat n = (if n < 10 then [digit_char n] else str_nat (n div 10) @ [digit_char (n mod 10)])"
  by pat_completeness auto
termination
  by (relation "measure (\<lambda>n. n)") auto

definition str_int :: "int \<Rightarrow> string" where
  "str_int i = (if i < 0 then CHR ''-'' # str_nat (nat (- i)) else str_nat (nat i))"

text \<open>
  Statements in sequence inside a \<open>try\<close> block: an exception of the first skips the
  rest.
\<close>

definition and_then ::
  "((error + 'a) \<times> world) option \<Rightarrow> ('a \<Rightarrow> 'b action) \<Rightarrow> ((error + 'b) \<times> world) option" where
  "and_then res k =
     (case res of
        None \<Rightarrow> None
      | Some (r, w) \<Rightarrow> (case r of Inl e \<Rightarrow> Some (Inl e, w) | Inr x \<Rightarrow> k x w))"

definition update_auto_scaling_group_body ::
  "asg_details \<Rightarrow> string \<Rightarrow> int \<Rightarrow> int \<Rightarrow> int \<Rightarrow> (version_token option) action" where
  "update_auto_scaling_group_body asg new_ami_id desired mn mx w =
     except_ClientError ''ClientError updating Auto Scaling Group: {e}''
       (let w0 = logging_info
                   ''Checking if Auto Scaling Group needs to be updated with new AMI or capacity settings''
                   [] w
        in case LaunchTemplate asg of
             None \<Rightarrow> Some (Inl KeyError, w0)
           | Some lt \<Rightarrow>
               and_then (get_current_ami_id (LaunchTemplateId lt) (Version lt) w0)
                 (\<lambda>current_ami_id w1.
                    if current_ami_id = new_ami_id \<and> DesiredCapacity asg = desired
                       \<and> MinSize asg = mn \<and> MaxSize asg = mx
                    then Some (Inr None,
                           logging_info
                             ''AMI ID, desired capacity, min size, and max size have not changed, no update required''
                             [] w1)
                    else
                      (let w2 = logging_info ''Updating Auto Scaling Group with new settings'' [] w1
                       in if current_ami_id \<noteq> new_ami_id
                          then
                            and_then
                              (create_launch_template_version (LaunchTemplateId lt) (Version lt)
                                 new_ami_id
                                 (logging_info
                                    ''AMI ID has changed, creating new version of the launch template''
                                    [] w2))
                              (\<lambda>new_version w3.
                                 and_then
                                   (autoscaling_update_auto_scaling_group
                                      (AutoScalingGroupName asg) desired mn mx
                                      (Some \<lparr>LaunchTemplateId = LaunchTemplateId lt,
                                             Version = str_int new_version\<rparr>) w3)
                                   (\<lambda>u w4. Some (Inr (Some (VersionNumber new_version)), w4)))
                          else
                            and_then
                              (autoscaling_update_auto_scaling_group
                                 (AutoScalingGroupName asg) desired mn mx None w2)
                              (\<lambda>u w4. Some (Inr (Some (VersionString (Version lt))), w4)))))"

definition update_auto_scaling_group ::
  "asg_details \<Rightarrow> string \<Rightarrow> int \<Rightarrow> int \<Rightarrow> int \<Rightarrow> (version_token option) action" where
  "update_auto_scaling_group asg new_ami_id desired mn mx =
     retry (update_auto_scaling_group_body asg new_ami_id desired mn mx)"

definition start_instance_refresh_body :: "string \<Rightarrow> instance_refresh_config \<Rightarrow> string action" where
  "start_instance_refresh_body asg_name prefs w =
     except_ClientError ''ClientError starting instance refresh: {e}''
       (autoscaling_start_instance_refresh asg_name prefs
          (logging_info ''Starting instance refresh for ASG: {asg_name}'' [S asg_name] w))"

definition start_instance_refresh :: "string \<Rightarrow> instance_refresh_config \<Rightarrow> string action" where
  "start_instance_refresh asg_name prefs = retry (start_instance_refresh_body asg_name prefs)"

definition terminal_statuses :: "string list" where
  "terminal_statuses = [''Successful'', ''Failed'', ''Cancelled'']"

text \<open>The \<open>while True\<close> loop of \<open>wait_for_instance_refresh\<close>; the method returns no value.\<close>

function wait_for_instance_refresh_loop :: "string \<Rightarrow> string \<Rightarrow> unit action" where
  "wait_for_instance_refresh_loop asg_name rid w =
     (case describe_instance_refreshes asg_name rid w of
        None \<Rightarrow> None
      | Some (r, w1) \<Rightarrow>
          (case r of
             Inl e \<Rightarrow> Some (Inl e, w1)
           | Inr refreshes \<Rightarrow>
               (case refreshes of
                  [] \<Rightarrow> Some (Inl IndexError, w1)
                | status # rest \<Rightarrow>
                    if status \<in> set terminal_statuses
                    then Some (Inr (), logging_info ''Instance refresh {status}'' [S status] w1)
                    else wait_for_instance_refresh_loop asg_name rid
                           (sleep 10 (logging_info ''Instance refresh in progress...'' [] w1)))))"
  by pat_completeness auto
termination
  by (relation "measure (\<lambda>(a, r, w). length (describe_instance_refreshes_q w))")
     (auto simp: describe_instance_refreshes_def sleep_def logging_info_def emit_def
           split: list.splits)

declare wait_for_instance_refresh_loop.simps [simp del]

definition wait_for_instance_refresh_body :: "string \<Rightarrow> string \<Rightarrow> unit action" where
  "wait_for_instance_refresh_body asg_name rid w =
     except_ClientError ''ClientError waiting for instance refresh: {e}''
       (wait_for_instance_refresh_loop asg_name rid
          (logging_info
             ''Waiting for instance refresh {instance_refresh_id} to complete for ASG: {asg_name}''
             [S rid, S asg_name] w))"

definition wait_for_instance_refresh :: "string \<Rightarrow> string \<Rightarrow> unit action" where
  "wait_for_instance_refresh asg_name rid = retry (wait_for_instance_refresh_body asg_name rid)"

definition old_instances_of :: "string \<Rightarrow> asg_instance list \<Rightarrow> asg_instance list" where
  "old_instances_of asg_name instances =
     filter (\<lambda>i. InstanceGroupName i = asg_name \<and> LifecycleState i \<noteq> ''InService'') instances"

text \<open>\<open>for instance in old_instances: terminate_instances(...)\<close>\<close>

fun terminate_each :: "asg_instance list \<Rightarrow> unit action" where
  "terminate_each [] w = Some (Inr (), w)"
| "terminate_each (i # rest) w =
     (case terminate_instances (InstanceId i) w of
        None \<Rightarrow> None
      | Some (r, w1) \<Rightarrow>
          (case r of Inl e \<Rightarrow> Some (Inl e, w1) | Inr u \<Rightarrow> terminate_each rest w1))"

function verify_old_instances_termination_loop :: "string \<Rightarrow> unit action" where
  "verify_old_instances_termination_loop asg_name w =
     (case describe_auto_scaling_instances w of
        None \<Rightarrow> None
      | Some (r, w1) \<Rightarrow>
          (case r of
             Inl e \<Rightarrow> Some (Inl e, w1)
           | Inr instances \<Rightarrow>
               if old_instances_of asg_name instances = []
               then Some (Inr (), logging_info ''Old instances have been terminated'' [] w1)
               else
                 (case terminate_each (old_instances_of asg_name instances)
                         (logging_info ''Waiting for old instances to terminate...'' [] w1) of
                    None \<Rightarrow> None
                  | Some (r2, w2) \<Rightarrow>
                      (case r2 of
                         Inl e \<Rightarrow> Some (Inl e, w2)
                       | Inr u \<Rightarrow> verify_old_instances_termination_loop asg_name (sleep 30 w2)))))"
  by pat_completeness auto
termination
proof (relation "measure (\<lambda>(a, w). length (describe_auto_scaling_instances_q w))")
  show "wf (measure (\<lambda>(a, w). length (describe_auto_scaling_instances_q w)))"
    by simp
next
  fix asg_name :: string and w w1 w2 :: world
    and r :: "error + asg_instance list" and instances :: "asg_instance list"
    and r2 :: "error + unit" and u :: unit and x2 y2
  have keep: "describe_auto_scaling_instances_q v' = describe_auto_scaling_instances_q v"
    if "terminate_each is v = Some (res, v')" for "is" v res v'
    using that
    by (induction "is" arbitrary: v)
       (auto simp: terminate_instances_def emit_def split: list.splits sum.splits)
  assume d: "describe_auto_scaling_instances w = Some x2" "(r, w1) = x2"
    and t: "terminate_each (old_instances_of asg_name instances)
              (logging_info ''Waiting for old instances to terminate...'' [] w1) = Some y2"
           "(r2, w2) = y2"
  from t keep [of _ _ r2 w2]
  have "describe_auto_scaling_instances_q w2 = describe_auto_scaling_instances_q w1"
    by (auto simp: logging_info_def emit_def)
  moreover from d have "length (describe_auto_scaling_instances_q w1)
                        < length (describe_auto_scaling_instances_q w)"
    by (auto simp: describe_auto_scaling_instances_def emit_def split: list.splits)
  ultimately show "((asg_name, sleep 30 w2), asg_name, w)
                   \<in> measure (\<lambda>(a, w). length (describe_auto_scaling_instances_q w))"
    by (simp add: sleep_def emit_def)
qed

declare verify_old_instances_termination_loop.simps [simp del]

definition verify_old_instances_termination_body :: "string \<Rightarrow> unit action" where
  "verify_old_instances_termination_body asg_name w =
     except_ClientError ''ClientError verifying old instances termination: {e}''
       (verify_old_instances_termination_loop asg_name
          (logging_info ''Verifying that old instances in ASG: {asg_name} are terminated''
             [S asg_name] w))"

definition verify_old_instances_termination :: "string \<Rightarrow> unit action" where
  "verify_old_instances_termination asg_name =
     retry (verify_old_instances_termination_body asg_name)"

section \<open>The orchestrator (deployment.py)\<close>

text \<open>
  The branch \<open>if new_version is not None\<close> of \<open>Deployment.run\<close>: the refresh, the wait
  and the verification of the old instances, each followed by its log line.
\<close>

definition run_refresh :: "config \<Rightarrow> version_token \<Rightarrow> unit action" where
  "run_refresh cfg new_version w =
     and_then
       (start_instance_refresh (auto_scaling_group cfg) (instance_refresh cfg)
          (logger_info ''ASG updated to use new launch template version: {new_version}''
             [V new_version] w))
       (\<lambda>instance_refresh_id w2.
          and_then
            (wait_for_instance_refresh (auto_scaling_group cfg) instance_refresh_id
               (logger_info ''Started instance refresh with ID: {instance_refresh_id}''
                  [S instance_refresh_id] w2))
            (\<lambda>u w3.
               and_then
                 (verify_old_instances_termination (auto_scaling_group cfg)
                    (logger_info ''Instance refresh completed successfully'' [] w3))
                 (\<lambda>u w4.
                    Some (Inr (), logger_info ''Old instances have been terminated'' [] w4))))"

text \<open>
  The body of the second \<open>try\<close> block of \<open>Deployment.run\<close>: the update, then the
  branch on what it returned.
\<close>

definition run_update :: "config \<Rightarrow> asg_details \<Rightarrow> unit action" where
  "run_update cfg current_asg_details w =
     and_then
       (update_auto_scaling_group current_asg_details (ami_id cfg) (desired_capacity cfg)
          (min_size cfg) (max_size cfg) w)
       (\<lambda>new_version w1.
          case new_version of
            None \<Rightarrow>
              Some (Inr (),
                logger_info
                  ''No update required, AMI ID, desired capacity, min size, and max size have not changed''
                  [] w1)
          | Some v \<Rightarrow> run_refresh cfg v w1)"

text \<open>
  \<open>Deployment.run\<close>. The first \<open>try\<close> catches \<open>ValueError\<close> only, the second every
  exception; both handlers log the error and return. The result is \<open>Inr ()\<close> when the
  method returns and \<open>Inl e\<close> when the exception \<open>e\<close> leaves it.
\<close>

definition run :: "config \<Rightarrow> unit action" where
  "run cfg w =
     (case get_current_asg_details (auto_scaling_group cfg)
             (initialize_aws_sdk (logger_info ''Starting deployment process'' [] w)) of
        None \<Rightarrow> None
      | Some (r1, w1) \<Rightarrow>
          (case r1 of
             Inl e \<Rightarrow>
               if e = ValueError
               then Some (Inr (), logger_error ''Error retrieving ASG details: {e}'' [E e] w1)
               else Some (Inl e, w1)
           | Inr current_asg_details \<Rightarrow>
               (case run_update cfg current_asg_details
                       (logger_info ''ASG Details: {current_asg_details}''
                          [A current_asg_details] w1) of
                  None \<Rightarrow> None
                | Some (r2, w2) \<Rightarrow>
                    (case r2 of
                       Inl e \<Rightarrow>
                         Some (Inr (),
                           logger_error ''Error updating ASG with new AMI: {e}'' [E e] w2)
                     | Inr u \<Rightarrow>
                         Some (Inr (),
                           logger_info ''Deployment process completed successfully'' [] w2)))))"

text \<open>
  \<open>main\<close> of deploy\_app.py runs the deployment and nothing after it: the process ends
  with status 0 when \<open>run\<close> returns, and with a traceback and status 1 when an
  exception leaves it.
\<close>

definition exit_status :: "error + unit \<Rightarrow> int" where
  "exit_status r = (case r of Inl e \<Rightarrow> 1 | Inr u \<Rightarrow> 0)"

definition main :: "config \<Rightarrow> world \<Rightarrow> (int \<times> world) option" where
  "main cfg w = (case run cfg w of None \<Rightarrow> None | Some (r, w') \<Rightarrow> Some (exit_status r, w'))"

section \<open>Reading a trace\<close>

definition calls_of :: "event list \<Rightarrow> remote_call list" where
  "calls_of evs = concat (map (\<lambda>e. case e of Call c \<Rightarrow> [c] | _ \<Rightarrow> []) evs)"

definition mutating_calls :: "event list \<Rightarrow> remote_call list" where
  "mutating_calls evs = filter mutating (calls_of evs)"

fun is_Log :: "event \<Rightarrow> bool" where
  "is_Log (Log lg lv msg args) = True"
| "is_Log e = False"

text \<open>The remote calls and the sleeps of a trace, in order: the trace without its log lines.\<close>

definition io_of :: "event list \<Rightarrow> event list" where
  "io_of evs = filter (\<lambda>e. \<not> is_Log e) evs"

definition success_marker :: event where
  "success_marker = Log DeploymentLogger INFO ''Deployment process completed successfully'' []"



definition empty_world :: world where
  "empty_world =
     \<lparr>describe_auto_scaling_groups_q = [], describe_launch_template_versions_q = [],
      create_launch_template_version_q = [], update_auto_scaling_group_q = [],
      start_instance_refresh_q = [], describe_instance_refreshes_q = [],
      describe_auto_scaling_instances_q = [], terminate_instances_q = [], trace = []\<rparr>"

text \<open>
  \<open>extends P w w'\<close>: the trace of \<open>w'\<close> is the trace of \<open>w\<close> followed by events that all
  satisfy \<open>P\<close>. A helper event is anything but a line of the orchestrator's logger; a
  lookup event is a helper event that is no mutating call.
\<close>

definition extends :: "(event \<Rightarrow> bool) \<Rightarrow> world \<Rightarrow> world \<Rightarrow> bool" where
  "extends P w w' =
     (take (length (trace w)) (trace w') = trace w
      \<and> list_all P (drop (length (trace w)) (trace w')))"

definition helper_event :: "event \<Rightarrow> bool" where
  "helper_event e = (case e of Log lg lv msg args \<Rightarrow> lg = RootLogger | _ \<Rightarrow> True)"

definition lookup_event :: "event \<Rightarrow> bool" where
  "lookup_event e =
     (case e of Call c \<Rightarrow> \<not> mutating c | Sleep n \<Rightarrow> True
      | Log lg lv msg args \<Rightarrow> lg = RootLogger)"

text \<open>
  \<open>only_calls C e\<close>: the event \<open>e\<close> is a helper event, and when it is a remote call, a
  call of \<open>C\<close>.
\<close>

definition only_calls :: "remote_call set \<Rightarrow> event \<Rightarrow> bool" where
  "only_calls C e =
     (case e of Call c \<Rightarrow> c \<in> C | Sleep n \<Rightarrow> True | Log lg lv msg args \<Rightarrow> lg = RootLogger)"

section \<open>The decorated methods\<close>

text \<open>
  The six methods of \<open>AWSHelper\<close> that carry the \<open>@retry\<close> decorator, with their
  arguments. \<open>method_body\<close> is the method under the decorator and \<open>decorated_method\<close> the
  method as it is called, both with the value they return left out.
\<close>

datatype wrapped_call =
    GetCurrentAsgDetails string
  | GetCurrentAmiId string string
  | UpdateAutoScalingGroupTo asg_details string int int int
  | StartInstanceRefreshOf string instance_refresh_config
  | WaitForInstanceRefresh string string
  | VerifyOldInstancesTermination string

definition discard :: "'a action \<Rightarrow> unit action" where
  "discard f w =
     (case f w of
        None \<Rightarrow> None
      | Some (r, w') \<Rightarrow> Some (case r of Inl e \<Rightarrow> Inl e | Inr x \<Rightarrow> Inr (), w'))"

fun method_body :: "wrapped_call \<Rightarrow> unit action" where
  "method_body (GetCurrentAsgDetails n) = discard (get_current_asg_details_body n)"
| "method_body (GetCurrentAmiId l v) = discard (get_current_ami_id_body l v)"
| "method_body (UpdateAutoScalingGroupTo asg ami d mn mx)
     = discard (update_auto_scaling_group_body asg ami d mn mx)"
| "method_body (StartInstanceRefreshOf n p) = discard (start_instance_refresh_body n p)"
| "method_body (WaitForInstanceRefresh n rid) = discard (wait_for_instance_refresh_body n rid)"
| "method_body (VerifyOldInstancesTermination n)
     = discard (verify_old_instances_termination_body n)"

fun decorated_method :: "wrapped_call \<Rightarrow> unit action" where
  "decorated_method (GetCurrentAsgDetails n) = discard (get_current_asg_details n)"
| "decorated_method (GetCurrentAmiId l v) = discard (get_current_ami_id l v)"
| "decorated_method (UpdateAutoScalingGroupTo asg ami d mn mx)
     = discard (update_auto_scaling_group asg ami d mn mx)"
| "decorated_method (StartInstanceRefreshOf n p) = discard (start_instance_refresh n p)"
| "decorated_method (WaitForInstanceRefresh n rid) = discard (wait_for_instance_refresh n rid)"
| "decorated_method (VerifyOldInstancesTermination n)
     = discard (verify_old_instances_termination n)"

section \<open>A stage that fails\<close>

text \<open>
  The stages of \<open>Deployment.run\<close>, in the order of the source. \<open>stage_fails cfg w s e wx\<close>:
  in the run of \<open>cfg\<close> from \<open>w\<close> the stages before \<open>s\<close> return and stage \<open>s\<close> raises \<open>e\<close>,
  leaving the world \<open>wx\<close>.
\<close>

datatype stage = RetrieveGroup | UpdateGroup | StartRefresh | WaitForRefresh | VerifyTermination

inductive stage_fails :: "config \<Rightarrow> world \<Rightarrow> stage \<Rightarrow> error \<Rightarrow> world \<Rightarrow> bool"
  for cfg :: config and w :: world where
  retrieve_fails:
    "get_current_asg_details (auto_scaling_group cfg)
       (initialize_aws_sdk (logger_info ''Starting deployment process'' [] w))
       = Some (Inl e, wx)
     \<Longrightarrow> stage_fails cfg w RetrieveGroup e wx"
| update_fails:
    "get_current_asg_details (auto_scaling_group cfg)
       (initialize_aws_sdk (logger_info ''Starting deployment process'' [] w))
       = Some (Inr asg, w1)
     \<Longrightarrow> update_auto_scaling_group asg (ami_id cfg) (desired_capacity cfg) (min_size cfg)
           (max_size cfg) (logger_info ''ASG Details: {current_asg_details}'' [A asg] w1)
         = Some (Inl e, wx)
     \<Longrightarrow> stage_fails cfg w UpdateGroup e wx"
| start_fails:
    "get_current_asg_details (auto_scaling_group cfg)
       (initialize_aws_sdk (logger_info ''Starting deployment process'' [] w))
       = Some (Inr asg, w1)
     \<Longrightarrow> update_auto_scaling_group asg (ami_id cfg) (desired_capacity cfg) (min_size cfg)
           (max_size cfg) (logger_info ''ASG Details: {current_asg_details}'' [A asg] w1)
         = Some (Inr (Some v), w2)
     \<Longrightarrow> start_instance_refresh (auto_scaling_group cfg) (instance_refresh cfg)
           (logger_info ''ASG updated to use new launch template version: {new_version}''
              [V v] w2)
         = Some (Inl e, wx)
     \<Longrightarrow> stage_fails cfg w StartRefresh e wx"
| wait_fails:
    "get_current_asg_details (auto_scaling_group cfg)
       (initialize_aws_sdk (logger_info ''Starting deployment process'' [] w))
       = Some (Inr asg, w1)
     \<Longrightarrow> update_auto_scaling_group asg (ami_id cfg) (desired_capacity cfg) (min_size cfg)
           (max_size cfg) (logger_info ''ASG Details: {current_asg_details}'' [A asg] w1)
         = Some (Inr (Some v), w2)
     \<Longrightarrow> start_instance_refresh (auto_scaling_group cfg) (instance_refresh cfg)
           (logger_info ''ASG updated to use new launch template version: {new_version}''
              [V v] w2)
         = Some (Inr rid, w3)
     \<Longrightarrow> wait_for_instance_refresh (auto_scaling_group cfg) rid
           (logger_info ''Started instance refresh with ID: {instance_refresh_id}'' [S rid] w3)
         = Some (Inl e, wx)
     \<Longrightarrow> stage_fails cfg w WaitForRefresh e wx"
| verify_fails:
    "get_current_asg_details (auto_scaling_group cfg)
       (initialize_aws_sdk (logger_info ''Starting deployment process'' [] w))
       = Some (Inr asg, w1)
     \<Longrightarrow> update_auto_scaling_group asg (ami_id cfg) (desired_capacity cfg) (min_size cfg)
           (max_size cfg) (logger_info ''ASG Details: {current_asg_details}'' [A asg] w1)
         = Some (Inr (Some v), w2)
     \<Longrightarrow> start_instance_refresh (auto_scaling_group cfg) (instance_refresh cfg)
           (logger_info ''ASG updated to use new launch template version: {new_version}''
              [V v] w2)
         = Some (Inr rid, w3)
     \<Longrightarrow> wait_for_instance_refresh (auto_scaling_group cfg) rid
           (logger_info ''Started instance refresh with ID: {instance_refresh_id}'' [S rid] w3)
         = Some (Inr u, w4)
     \<Longrightarrow> verify_old_instances_termination (auto_scaling_group cfg)
           (logger_info ''Instance refresh completed successfully'' [] w4)
         = Some (Inl e, wx)
     \<Longrightarrow> stage_fails cfg w VerifyTermination e wx"

code_pred stage_fails .

section \<open>Scenarios\<close>

text \<open>For the retry policy: three throttled calls; a group that is not found.\<close>

definition world_throttled :: world where
  "world_throttled =
     empty_world\<lparr>describe_auto_scaling_groups_q :=
       [Inl (ClientError ''Throttling''), Inl (ClientError ''Throttling''),
        Inl (ClientError ''ServiceUnavailable'')]\<rparr>"

definition world_no_group :: world where
  "world_no_group = empty_world\<lparr>describe_auto_scaling_groups_q := [Inr (Some [])]\<rparr>"

text \<open>For the polling of a refresh: it succeeds at the third query; it fails at the second.\<close>

definition world_refresh_succeeds :: world where
  "world_refresh_succeeds =
     empty_world\<lparr>describe_instance_refreshes_q :=
       [Inr [''Pending''], Inr [''InProgress''], Inr [''Successful''], Inr [''Failed'']]\<rparr>"

definition world_refresh_fails :: world where
  "world_refresh_fails =
     empty_world\<lparr>describe_instance_refreshes_q := [Inr [''InProgress''], Inr [''Failed'']]\<rparr>"

text \<open>
  For the verification of the old instances: a first listing with an instance of the
  group that is terminating, one in service and one of another group; a second listing
  with the instance in service only.
\<close>

definition listing_draining :: "asg_instance list" where
  "listing_draining =
     [\<lparr>InstanceId = ''i-1'', InstanceGroupName = ''web'', LifecycleState = ''Terminating''\<rparr>,
      \<lparr>InstanceId = ''i-2'', InstanceGroupName = ''web'', LifecycleState = ''InService''\<rparr>,
      \<lparr>InstanceId = ''i-3'', InstanceGroupName = ''batch'', LifecycleState = ''Pending''\<rparr>]"

definition listing_converged :: "asg_instance list" where
  "listing_converged =
     [\<lparr>InstanceId = ''i-2'', InstanceGroupName = ''web'', LifecycleState = ''InService''\<rparr>,
      \<lparr>InstanceId = ''i-3'', InstanceGroupName = ''batch'', LifecycleState = ''Pending''\<rparr>]"

definition world_draining :: world where
  "world_draining =
     empty_world\<lparr>describe_auto_scaling_instances_q := [Inr listing_draining, Inr listing_converged],
                  terminate_instances_q := [Inr ()]\<rparr>"

text \<open>
  For the update: a group on image \<open>ami-v1\<close> with capacities 1, 1, 1, and the targets
  of the spec's scenarios.
\<close>

definition asg_v1 :: asg_details where
  "asg_v1 =
     \<lparr>AutoScalingGroupName = ''web'',
      LaunchTemplate = Some \<lparr>LaunchTemplateId = ''lt-1'', Version = ''7''\<rparr>,
      DesiredCapacity = 1, MinSize = 1, MaxSize = 1\<rparr>"

definition world_new_image :: world where
  "world_new_image =
     empty_world\<lparr>describe_launch_template_versions_q := [Inr (Some [Some ''ami-v1''])],
                  create_launch_template_version_q := [Inr 8],
                  update_auto_scaling_group_q := [Inr ()]\<rparr>"

definition world_resolved_v1 :: world where
  "world_resolved_v1 =
     world_new_image\<lparr>describe_launch_template_versions_q := [],
       trace :=
         [Log RootLogger INFO
            ''Checking if Auto Scaling Group needs to be updated with new AMI or capacity settings'' [],
          Log RootLogger INFO
            ''Retrieving current AMI ID from launch template {launch_template_id} version {launch_template_version}''
            [S ''lt-1'', S ''7''],
          Call (DescribeLaunchTemplateVersions ''lt-1'' ''7'')]\<rparr>"

text \<open>
  For a throttled update: the group's launch template version resolves to \<open>ami-v1\<close> at
  both lookups, both creations succeed, and the first update of the group is throttled.
\<close>

definition world_update_throttled :: world where
  "world_update_throttled =
     empty_world\<lparr>describe_launch_template_versions_q :=
                    [Inr (Some [Some ''ami-v1'']), Inr (Some [Some ''ami-v1''])],
                  create_launch_template_version_q := [Inr 8, Inr 9],
                  update_auto_scaling_group_q := [Inl (ClientError ''Throttling''), Inr ()]\<rparr>"

text \<open>
  For a throttled termination: two instances of the group are terminating, the first
  termination is throttled, and the next listing has both gone.
\<close>

definition listing_two_draining :: "asg_instance list" where
  "listing_two_draining =
     [\<lparr>InstanceId = ''i-1'', InstanceGroupName = ''web'', LifecycleState = ''Terminating''\<rparr>,
      \<lparr>InstanceId = ''i-4'', InstanceGroupName = ''web'', LifecycleState = ''Terminating''\<rparr>,
      \<lparr>InstanceId = ''i-2'', InstanceGroupName = ''web'', LifecycleState = ''InService''\<rparr>]"

definition world_termination_throttled :: world where
  "world_termination_throttled =
     empty_world\<lparr>describe_auto_scaling_instances_q :=
                    [Inr listing_two_draining, Inr listing_converged],
                  terminate_instances_q := [Inl (ClientError ''Throttling'')]\<rparr>"

text \<open>For a run that needs no update: the group of scenario A and its target.\<close>

definition refresh_prefs :: instance_refresh_config where
  "refresh_prefs =
     \<lparr>min_healthy_percentage = 90, max_healthy_percentage = 100, instance_warmup = 300,
      skip_matching = True\<rparr>"

definition config_v1 :: config where
  "config_v1 =
     \<lparr>aws_region = ''us-east-1'', auto_scaling_group = ''web'', ami_id = ''ami-v1'',
      desired_capacity = 1, min_size = 1, max_size = 1, instance_refresh = refresh_prefs\<rparr>"

definition world_unchanged :: world where
  "world_unchanged =
     empty_world\<lparr>describe_auto_scaling_groups_q := [Inr (Some [asg_v1])],
                  describe_launch_template_versions_q := [Inr (Some [Some ''ami-v1''])]\<rparr>"

text \<open>
  For a change of capacity only: the target keeps image \<open>ami-v1\<close> and asks for
  capacities 3, 1, 5; in the second world the first update of the group is throttled.
\<close>

definition config_scale_out :: config where
  "config_scale_out =
     \<lparr>aws_region = ''us-east-1'', auto_scaling_group = ''web'', ami_id = ''ami-v1'',
      desired_capacity = 3, min_size = 1, max_size = 5, instance_refresh = refresh_prefs\<rparr>"

definition world_scale_out :: world where
  "world_scale_out =
     empty_world\<lparr>describe_launch_template_versions_q := [Inr (Some [Some ''ami-v1''])],
                  update_auto_scaling_group_q := [Inr ()],
                  start_instance_refresh_q := [Inr ''refresh-1''],
                  describe_instance_refreshes_q := [Inr [''Successful'']],
                  describe_auto_scaling_instances_q := [Inr listing_converged]\<rparr>"

definition world_scale_out_throttled :: world where
  "world_scale_out_throttled =
     empty_world\<lparr>describe_launch_template_versions_q :=
                    [Inr (Some [Some ''ami-v1'']), Inr (Some [Some ''ami-v1''])],
                  update_auto_scaling_group_q := [Inl (ClientError ''Throttling''), Inr ()]\<rparr>"

text \<open>For a whole run that changes the capacities: the group is found, then as above.\<close>

definition world_scale_out_run :: world where
  "world_scale_out_run =
     world_scale_out\<lparr>describe_auto_scaling_groups_q := [Inr (Some [asg_v1])]\<rparr>"

text \<open>The group is not found; the status query of the refresh raises an unclassified error.\<close>

definition world_refresh_query_fails :: world where
  "world_refresh_query_fails =
     world_scale_out_run\<lparr>describe_instance_refreshes_q := [Inl (OtherError ''ReadTimeout'')]\<rparr>"


section \<open>Basic facts\<close>

lemma emit_simps [simp]:
  "trace (emit e w) = trace w @ [e]"
  "describe_auto_scaling_groups_q (emit e w) = describe_auto_scaling_groups_q w"
  "describe_launch_template_versions_q (emit e w) = describe_launch_template_versions_q w"
  "create_launch_template_version_q (emit e w) = create_launch_template_version_q w"
  "update_auto_scaling_group_q (emit e w) = update_auto_scaling_group_q w"
  "start_instance_refresh_q (emit e w) = start_instance_refresh_q w"
  "describe_instance_refreshes_q (emit e w) = describe_instance_refreshes_q w"
  "describe_auto_scaling_instances_q (emit e w) = describe_auto_scaling_instances_q w"
  "terminate_instances_q (emit e w) = terminate_instances_q w"
  by (simp_all add: emit_def)

lemmas log_defs =
  sleep_def logging_info_def logging_error_def logger_info_def logger_error_def
  initialize_aws_sdk_def

lemma and_then_simps [simp]:
  "and_then None k = None"
  "and_then (Some (Inl e, w)) k = Some (Inl e, w)"
  "and_then (Some (Inr x, w)) k = k x w"
  by (simp_all add: and_then_def)

lemma and_then_SomeD:
  assumes "and_then res k = Some (r, w')"
  shows "(\<exists>e. res = Some (Inl e, w') \<and> r = Inl e)
         \<or> (\<exists>x w1. res = Some (Inr x, w1) \<and> k x w1 = Some (r, w'))"
  using assms by (auto simp: and_then_def split: option.splits sum.splits)

lemma except_ClientError_simps [simp]:
  "except_ClientError msg None = None"
  "except_ClientError msg (Some (Inr x, w)) = Some (Inr x, w)"
  "except_ClientError msg (Some (Inl e, w)) =
     (if is_ClientError e then Some (Inl e, logging_error msg [E e] w) else Some (Inl e, w))"
  by (simp_all add: except_ClientError_def)

lemma except_ClientError_SomeD:
  assumes "except_ClientError msg res = Some (r, w')"
  shows "res = Some (r, w')
         \<or> (\<exists>e w1. res = Some (Inl e, w1) \<and> is_ClientError e \<and> r = Inl e
                    \<and> w' = logging_error msg [E e] w1)"
  using assms by (auto simp: except_ClientError_def split: option.splits sum.splits if_splits)

lemma extends_iff: "extends P w w' \<longleftrightarrow> (\<exists>evs. trace w' = trace w @ evs \<and> list_all P evs)"
proof
  assume "extends P w w'"
  then have "trace w' = trace w @ drop (length (trace w)) (trace w')"
    and "list_all P (drop (length (trace w)) (trace w'))"
    unfolding extends_def by (metis append_take_drop_id, simp)
  then show "\<exists>evs. trace w' = trace w @ evs \<and> list_all P evs" by blast
next
  assume "\<exists>evs. trace w' = trace w @ evs \<and> list_all P evs"
  then show "extends P w w'" by (auto simp: extends_def)
qed

lemma extends_refl [simp]: "extends P w w"
  by (simp add: extends_iff)

lemma extends_trans: "extends P w w1 \<Longrightarrow> extends P w1 w2 \<Longrightarrow> extends P w w2"
  by (auto simp: extends_iff)

lemma extends_emit: "P e \<Longrightarrow> extends P w (emit e w)"
  by (simp add: extends_iff)

lemma extends_mono: "extends P w w' \<Longrightarrow> (\<And>e. P e \<Longrightarrow> Q e) \<Longrightarrow> extends Q w w'"
  by (auto simp: extends_iff list_all_iff)

lemma extends_then_emit: "extends P w w' \<Longrightarrow> P e \<Longrightarrow> extends P w (emit e w')"
  by (auto simp: extends_iff)

lemma extends_after_emit: "extends P (emit e w) w' \<Longrightarrow> P e \<Longrightarrow> extends P w w'"
  by (auto simp: extends_iff)

lemma retrying_extends:
  assumes f: "\<And>v r v'. f v = Some (r, v') \<Longrightarrow> extends P v v'"
    and s: "\<And>n. P (Sleep n)"
  shows "retrying k a f w = Some (r, w') \<Longrightarrow> extends P w w'"
proof (induction k arbitrary: a w)
  case 0
  then obtain r0 where "f w = Some (r0, w')"
    by (auto split: option.splits sum.splits if_splits)
  then show ?case by (rule f)
next
  case (Suc k)
  from Suc.prems obtain r1 w1 where fw: "f w = Some (r1, w1)"
    by (auto split: option.splits)
  show ?case
  proof (cases "\<exists>e. r1 = Inl e \<and> is_ClientError e")
    case True
    with Suc.prems fw
    have "retrying k (Suc a) f (sleep (wait_exponential a) w1) = Some (r, w')"
      by auto
    then have "extends P (sleep (wait_exponential a) w1) w'" by (rule Suc.IH)
    then have "extends P w1 w'"
      unfolding sleep_def by (rule extends_after_emit) (rule s)
    with f [OF fw] show ?thesis by (rule extends_trans)
  next
    case False
    with Suc.prems fw have "r = r1" "w' = w1"
      by (auto split: sum.splits if_splits)
    with f [OF fw] show ?thesis by simp
  qed
qed

lemma retry_extends:
  assumes "\<And>v r v'. f v = Some (r, v') \<Longrightarrow> extends P v v'" and "\<And>n. P (Sleep n)"
    and "retry f w = Some (r, w')"
  shows "extends P w w'"
  using assms unfolding retry_def by (blast intro: retrying_extends)



lemma retry_Inr: "f w = Some (Inr x, w') \<Longrightarrow> retry f w = Some (Inr x, w')"
  by (simp add: retry_def stop_after_attempt_def numeral_2_eq_2)

lemma retry_not_retried:
  "f w = Some (Inl e, w') \<Longrightarrow> \<not> is_ClientError e \<Longrightarrow> retry f w = Some (Inl e, w')"
  by (simp add: retry_def stop_after_attempt_def numeral_2_eq_2)


lemma retry_exhausted:
  assumes "f w = Some (Inl e1, w1)" and "is_ClientError e1"
    and "f (sleep (wait_exponential 1) w1) = Some (Inl e2, w2)" and "is_ClientError e2"
    and "f (sleep (wait_exponential 2) w2) = Some (Inl e3, w3)" and "is_ClientError e3"
  shows "retry f w = Some (Inl (RetryError e3), w3)"
proof -
  have "retry f w = retrying 1 2 f (sleep (wait_exponential 1) w1)"
    using assms(1,2) by (simp add: retry_def stop_after_attempt_def numeral_2_eq_2)
  also have "\<dots> = retrying 0 3 f (sleep (wait_exponential 2) w2)"
    using assms(3,4) by (simp add: numeral_3_eq_3)
  also have "\<dots> = Some (Inl (RetryError e3), w3)"
    using assms(5,6) by simp
  finally show ?thesis .
qed

lemma wait_exponential_1 [simp]:
  "wait_exponential 1 = 2" "wait_exponential (Suc 0) = 2" "wait_exponential 2 = 2"
  by (simp_all add: wait_exponential_def)

section \<open>What the helpers add to the trace\<close>

lemma helper_event_simps [simp]:
  "helper_event (Call c)" "helper_event (Sleep n)"
  "helper_event (Log lg lv msg args) = (lg = RootLogger)"
  by (simp_all add: helper_event_def)

lemma lookup_event_simps [simp]:
  "lookup_event (Call c) = (\<not> mutating c)" "lookup_event (Sleep n)"
  "lookup_event (Log lg lv msg args) = (lg = RootLogger)"
  by (simp_all add: lookup_event_def)

lemma remote_call_trace:
  "describe_auto_scaling_groups n w = Some (r1, w') \<Longrightarrow>
     trace w' = trace w @ [Call (DescribeAutoScalingGroups n)]"
  "describe_launch_template_versions l v w = Some (r2, w') \<Longrightarrow>
     trace w' = trace w @ [Call (DescribeLaunchTemplateVersions l v)]"
  "create_launch_template_version l v i w = Some (r3, w') \<Longrightarrow>
     trace w' = trace w @ [Call (CreateLaunchTemplateVersion l v i)]"
  "autoscaling_update_auto_scaling_group n d mn mx lt w = Some (r4, w') \<Longrightarrow>
     trace w' = trace w @ [Call (UpdateAutoScalingGroup n d mn mx lt)]"
  "autoscaling_start_instance_refresh n prefs w = Some (r5, w') \<Longrightarrow>
     trace w' = trace w @ [Call (StartInstanceRefresh n prefs)]"
  "describe_instance_refreshes n rid w = Some (r6, w') \<Longrightarrow>
     trace w' = trace w @ [Call (DescribeInstanceRefreshes n rid)]"
  "describe_auto_scaling_instances w = Some (r7, w') \<Longrightarrow>
     trace w' = trace w @ [Call DescribeAutoScalingInstances]"
  "terminate_instances iid w = Some (r8, w') \<Longrightarrow>
     trace w' = trace w @ [Call (TerminateInstances iid)]"
  by (auto simp: describe_auto_scaling_groups_def describe_launch_template_versions_def
        create_launch_template_version_def autoscaling_update_auto_scaling_group_def
        autoscaling_start_instance_refresh_def describe_instance_refreshes_def
        describe_auto_scaling_instances_def terminate_instances_def split: list.splits)

lemma remote_call_extends:
  "describe_auto_scaling_groups n w = Some (r1, w') \<Longrightarrow> extends lookup_event w w'"
  "describe_launch_template_versions l v w = Some (r2, w') \<Longrightarrow> extends lookup_event w w'"
  "create_launch_template_version l v i w = Some (r3, w') \<Longrightarrow> extends helper_event w w'"
  "autoscaling_update_auto_scaling_group n d mn mx lt w = Some (r4, w') \<Longrightarrow>
     extends helper_event w w'"
  "autoscaling_start_instance_refresh n prefs w = Some (r5, w') \<Longrightarrow> extends helper_event w w'"
  "describe_instance_refreshes n rid w = Some (r6, w') \<Longrightarrow> extends helper_event w w'"
  "describe_auto_scaling_instances w = Some (r7, w') \<Longrightarrow> extends helper_event w w'"
  "terminate_instances iid w = Some (r8, w') \<Longrightarrow> extends helper_event w w'"
  by (auto simp: extends_iff dest: remote_call_trace)


lemma log_extends [simp]:
  "extends lookup_event w (logging_info msg args w)"
  "extends lookup_event w (logging_error msg args w)"
  "extends lookup_event w (sleep n w)"
  "extends helper_event w (logging_info msg args w)"
  "extends helper_event w (logging_error msg args w)"
  "extends helper_event w (sleep n w)"
  by (simp_all add: log_defs extends_iff)

lemma except_ClientError_extends:
  assumes "except_ClientError msg res = Some (r, w')"
    and "\<And>r1 w1. res = Some (r1, w1) \<Longrightarrow> extends P w w1"
    and "\<And>lv m a. P (Log RootLogger lv m a)"
  shows "extends P w w'"
proof -
  from except_ClientError_SomeD [OF assms(1)]
  show ?thesis
  proof
    assume "res = Some (r, w')"
    then show ?thesis by (rule assms(2))
  next
    assume "\<exists>e w1. res = Some (Inl e, w1) \<and> is_ClientError e \<and> r = Inl e
                     \<and> w' = logging_error msg [E e] w1"
    then obtain e w1 where "res = Some (Inl e, w1)" "w' = logging_error msg [E e] w1"
      by blast
    with assms(2) [of "Inl e" w1] assms(3) show ?thesis
      by (simp add: logging_error_def extends_then_emit)
  qed
qed

lemma get_current_asg_details_body_lookup:
  "get_current_asg_details_body n w = Some (r, w') \<Longrightarrow> extends lookup_event w w'"
  by (auto simp: get_current_asg_details_body_def except_ClientError_def extends_iff log_defs
      split: option.splits sum.splits list.splits if_splits dest!: remote_call_trace(1))

lemma get_current_ami_id_body_lookup:
  "get_current_ami_id_body l v w = Some (r, w') \<Longrightarrow> extends lookup_event w w'"
  by (auto simp: get_current_ami_id_body_def except_ClientError_def extends_iff log_defs
      split: option.splits sum.splits list.splits if_splits dest!: remote_call_trace(2))

lemma get_current_asg_details_lookup:
  "get_current_asg_details n w = Some (r, w') \<Longrightarrow> extends lookup_event w w'"
  unfolding get_current_asg_details_def
  by (erule retry_extends [rotated 2]) (auto intro: get_current_asg_details_body_lookup)

lemma get_current_ami_id_lookup:
  "get_current_ami_id l v w = Some (r, w') \<Longrightarrow> extends lookup_event w w'"
  unfolding get_current_ami_id_def
  by (erule retry_extends [rotated 2]) (auto intro: get_current_ami_id_body_lookup)

lemma start_instance_refresh_body_helper:
  "start_instance_refresh_body n p w = Some (r, w') \<Longrightarrow> extends helper_event w w'"
  by (auto simp: start_instance_refresh_body_def except_ClientError_def extends_iff log_defs
      split: option.splits sum.splits list.splits if_splits dest!: remote_call_trace(5))





lemma wait_for_instance_refresh_loop_helper:
  "wait_for_instance_refresh_loop a rid w = Some (r, w') \<Longrightarrow> extends helper_event w w'"
proof (induction a rid w rule: wait_for_instance_refresh_loop.induct)
  case (1 a rid w)
  note unfold = wait_for_instance_refresh_loop.simps [of a rid w]
  from "1.prems" obtain r1 w1 where d: "describe_instance_refreshes a rid w = Some (r1, w1)"
    by (auto simp: unfold split: option.splits)
  then have e1: "extends helper_event w w1" by (rule remote_call_extends)
  show ?case
  proof (cases "\<exists>st rest. r1 = Inr (st # rest) \<and> st \<notin> set terminal_statuses")
    case True
    then obtain st rest where r1: "r1 = Inr (st # rest)" "st \<notin> set terminal_statuses"
      by blast
    with "1.prems" d
    have "wait_for_instance_refresh_loop a rid
            (sleep 10 (logging_info ''Instance refresh in progress...'' [] w1)) = Some (r, w')"
      by (simp add: unfold)
    with "1.IH" d r1
    have "extends helper_event
            (sleep 10 (logging_info ''Instance refresh in progress...'' [] w1)) w'"
      by simp
    then have "extends helper_event w1 w'"
      by (auto simp: log_defs dest!: extends_after_emit)
    with e1 show ?thesis by (rule extends_trans)
  next
    case False
    with "1.prems" d
    have "w' = w1 \<or> (\<exists>st. w' = logging_info ''Instance refresh {status}'' [S st] w1)"
      by (auto simp: unfold split: sum.splits list.splits if_splits)
    with e1 show ?thesis
      by (auto simp: logging_info_def intro: extends_then_emit)
  qed
qed

lemma terminate_each_helper:
  "terminate_each xs w = Some (r, w') \<Longrightarrow> extends helper_event w w'"
proof (induction xs arbitrary: w)
  case Nil
  then show ?case by simp
next
  case (Cons x xs)
  then show ?case
    by (auto split: option.splits sum.splits
        dest!: remote_call_extends(8) intro: extends_trans)
qed


lemma wait_for_instance_refresh_helper:
  "wait_for_instance_refresh a rid w = Some (r, w') \<Longrightarrow> extends helper_event w w'"
  unfolding wait_for_instance_refresh_def
proof (erule retry_extends [rotated 2])
  fix v r v'
  assume "wait_for_instance_refresh_body a rid v = Some (r, v')"
  then show "extends helper_event v v'"
    unfolding wait_for_instance_refresh_body_def
    by (rule except_ClientError_extends)
       (auto dest!: wait_for_instance_refresh_loop_helper
             simp: logging_info_def dest: extends_after_emit)
qed simp

lemma verify_old_instances_termination_loop_helper:
  "verify_old_instances_termination_loop a w = Some (r, w') \<Longrightarrow> extends helper_event w w'"
proof (induction a w rule: verify_old_instances_termination_loop.induct)
  case (1 a w)
  note unfold = verify_old_instances_termination_loop.simps [of a w]
  from "1.prems" obtain r1 w1 where d: "describe_auto_scaling_instances w = Some (r1, w1)"
    by (auto simp: unfold split: option.splits)
  then have e1: "extends helper_event w w1" by (rule remote_call_extends)
  show ?case
  proof (cases "\<exists>l. r1 = Inr l \<and> old_instances_of a l \<noteq> []")
    case True
    then obtain l where r1: "r1 = Inr l" "old_instances_of a l \<noteq> []" by blast
    with "1.prems" d obtain r2 w2 where
      t: "terminate_each (old_instances_of a l)
            (logging_info ''Waiting for old instances to terminate...'' [] w1) = Some (r2, w2)"
      by (auto simp: unfold split: option.splits)
    then have "extends helper_event
                 (logging_info ''Waiting for old instances to terminate...'' [] w1) w2"
      by (rule terminate_each_helper)
    then have e2: "extends helper_event w1 w2"
      by (auto simp: logging_info_def dest: extends_after_emit)
    show ?thesis
    proof (cases r2)
      case (Inl e)
      with "1.prems" d r1 t have "w' = w2" by (simp add: unfold)
      with e1 e2 show ?thesis by (auto intro: extends_trans)
    next
      case (Inr u)
      with "1.prems" d r1 t
      have "verify_old_instances_termination_loop a (sleep 30 w2) = Some (r, w')"
        by (simp add: unfold)
      with "1.IH" d r1 t Inr have "extends helper_event (sleep 30 w2) w'"
        by simp
      then have "extends helper_event w2 w'"
        by (auto simp: sleep_def dest: extends_after_emit)
      with e1 e2 show ?thesis by (auto intro: extends_trans)
    qed
  next
    case False
    with "1.prems" d
    have "w' = w1 \<or> w' = logging_info ''Old instances have been terminated'' [] w1"
      by (auto simp: unfold split: sum.splits if_splits)
    with e1 show ?thesis
      by (auto simp: logging_info_def intro: extends_then_emit)
  qed
qed

lemma verify_old_instances_termination_helper:
  "verify_old_instances_termination a w = Some (r, w') \<Longrightarrow> extends helper_event w w'"
  unfolding verify_old_instances_termination_def
proof (erule retry_extends [rotated 2])
  fix v r v'
  assume "verify_old_instances_termination_body a v = Some (r, v')"
  then show "extends helper_event v v'"
    unfolding verify_old_instances_termination_body_def
    by (rule except_ClientError_extends)
       (auto dest!: verify_old_instances_termination_loop_helper
             simp: logging_info_def dest: extends_after_emit)
qed simp



lemma io_of_simps [simp]:
  "io_of [] = []"
  "io_of (xs @ ys) = io_of xs @ io_of ys"
  "io_of (Call c # xs) = Call c # io_of xs"
  "io_of (Sleep n # xs) = Sleep n # io_of xs"
  "io_of (Log lg lv msg args # xs) = io_of xs"
  by (simp_all add: io_of_def)

lemma calls_of_simps [simp]:
  "calls_of [] = []"
  "calls_of (xs @ ys) = calls_of xs @ calls_of ys"
  "calls_of (Call c # xs) = c # calls_of xs"
  "calls_of (Sleep n # xs) = calls_of xs"
  "calls_of (Log lg lv msg args # xs) = calls_of xs"
  by (simp_all add: calls_of_def)

lemma mutating_calls_simps [simp]:
  "mutating_calls [] = []"
  "mutating_calls (xs @ ys) = mutating_calls xs @ mutating_calls ys"
  "mutating_calls (Call c # xs) = (if mutating c then c # mutating_calls xs else mutating_calls xs)"
  "mutating_calls (Sleep n # xs) = mutating_calls xs"
  "mutating_calls (Log lg lv msg args # xs) = mutating_calls xs"
  by (simp_all add: mutating_calls_def)

lemma sleep_simps [simp]:
  "trace (sleep n w) = trace w @ [Sleep n]"
  "describe_auto_scaling_groups_q (sleep n w) = describe_auto_scaling_groups_q w"
  "describe_launch_template_versions_q (sleep n w) = describe_launch_template_versions_q w"
  "create_launch_template_version_q (sleep n w) = create_launch_template_version_q w"
  "update_auto_scaling_group_q (sleep n w) = update_auto_scaling_group_q w"
  "start_instance_refresh_q (sleep n w) = start_instance_refresh_q w"
  "describe_instance_refreshes_q (sleep n w) = describe_instance_refreshes_q w"
  "describe_auto_scaling_instances_q (sleep n w) = describe_auto_scaling_instances_q w"
  "terminate_instances_q (sleep n w) = terminate_instances_q w"
  by (simp_all add: sleep_def)

lemma get_current_asg_details_body_raises:
  assumes "describe_auto_scaling_groups_q w = Inl e # q"
  shows "\<exists>w'. get_current_asg_details_body n w = Some (Inl e, w')
              \<and> io_of (trace w') = io_of (trace w) @ [Call (DescribeAutoScalingGroups n)]
              \<and> describe_auto_scaling_groups_q w' = q"
  using assms
  by (simp add: get_current_asg_details_body_def describe_auto_scaling_groups_def log_defs)

lemma get_current_asg_details_body_not_found:
  assumes "describe_auto_scaling_groups_q w = Inr resp # q" and "resp = None \<or> resp = Some []"
  shows "\<exists>w'. get_current_asg_details_body n w = Some (Inl ValueError, w')
              \<and> io_of (trace w') = io_of (trace w) @ [Call (DescribeAutoScalingGroups n)]
              \<and> describe_auto_scaling_groups_q w' = q"
  using assms
  by (auto simp: get_current_asg_details_body_def describe_auto_scaling_groups_def log_defs)

lemma logging_info_simps [simp]:
  "trace (logging_info msg args w) = trace w @ [Log RootLogger INFO msg args]"
  "describe_auto_scaling_groups_q (logging_info msg args w) = describe_auto_scaling_groups_q w"
  "describe_launch_template_versions_q (logging_info msg args w)
     = describe_launch_template_versions_q w"
  "create_launch_template_version_q (logging_info msg args w)
     = create_launch_template_version_q w"
  "update_auto_scaling_group_q (logging_info msg args w) = update_auto_scaling_group_q w"
  "start_instance_refresh_q (logging_info msg args w) = start_instance_refresh_q w"
  "describe_instance_refreshes_q (logging_info msg args w) = describe_instance_refreshes_q w"
  "describe_auto_scaling_instances_q (logging_info msg args w)
     = describe_auto_scaling_instances_q w"
  "terminate_instances_q (logging_info msg args w) = terminate_instances_q w"
  by (simp_all add: logging_info_def)

lemma describe_instance_refreshes_Cons:
  "describe_instance_refreshes_q w = r # q \<Longrightarrow>
     \<exists>w1. describe_instance_refreshes a rid w = Some (r, w1)
          \<and> trace w1 = trace w @ [Call (DescribeInstanceRefreshes a rid)]
          \<and> describe_instance_refreshes_q w1 = q"
  by (simp add: describe_instance_refreshes_def)

lemma wait_for_instance_refresh_loop_polls:
  assumes "describe_instance_refreshes_q w = map Inr pre @ Inr (t # ts) # q"
    and "list_all (\<lambda>r. r \<noteq> [] \<and> hd r \<notin> set terminal_statuses) pre"
    and "t \<in> set terminal_statuses"
  shows "\<exists>w'. wait_for_instance_refresh_loop a rid w = Some (Inr (), w')
           \<and> io_of (trace w') = io_of (trace w)
                @ concat (replicate (length pre) [Call (DescribeInstanceRefreshes a rid), Sleep 10])
                @ [Call (DescribeInstanceRefreshes a rid)]
           \<and> describe_instance_refreshes_q w' = q
           \<and> last (trace w') = Log RootLogger INFO ''Instance refresh {status}'' [S t]"
  using assms
proof (induction pre arbitrary: w)
  case Nil
  then have "describe_instance_refreshes_q w = Inr (t # ts) # q" by simp
  from describe_instance_refreshes_Cons [OF this, of a rid] Nil.prems(3)
  show ?case
    by (auto simp: wait_for_instance_refresh_loop.simps [of a rid w])
next
  case (Cons p pre)
  from Cons.prems obtain s rest where p: "p = s # rest" "s \<notin> set terminal_statuses"
    by (cases p) auto
  from Cons.prems have "describe_instance_refreshes_q w
       = Inr p # (map Inr pre @ Inr (t # ts) # q)"
    by simp
  from describe_instance_refreshes_Cons [OF this, of a rid] obtain w1 where
    w1: "describe_instance_refreshes a rid w = Some (Inr p, w1)"
        "trace w1 = trace w @ [Call (DescribeInstanceRefreshes a rid)]"
        "describe_instance_refreshes_q w1 = map Inr pre @ Inr (t # ts) # q"
    by blast
  let ?w2 = "sleep 10 (logging_info ''Instance refresh in progress...'' [] w1)"
  have step: "wait_for_instance_refresh_loop a rid w = wait_for_instance_refresh_loop a rid ?w2"
    using w1(1) p by (simp add: wait_for_instance_refresh_loop.simps [of a rid w])
  have "describe_instance_refreshes_q ?w2 = map Inr pre @ Inr (t # ts) # q"
    using w1(3) by simp
  from Cons.IH [OF this] Cons.prems(2,3) obtain w' where
    "wait_for_instance_refresh_loop a rid ?w2 = Some (Inr (), w')"
    "io_of (trace w') = io_of (trace ?w2)
       @ concat (replicate (length pre) [Call (DescribeInstanceRefreshes a rid), Sleep 10])
       @ [Call (DescribeInstanceRefreshes a rid)]"
    "describe_instance_refreshes_q w' = q"
    "last (trace w') = Log RootLogger INFO ''Instance refresh {status}'' [S t]"
    by auto
  with step w1(2) show ?case by simp
qed

lemma wait_for_instance_refresh_polls:
  assumes "describe_instance_refreshes_q w = map Inr pre @ Inr (t # ts) # q"
    and "list_all (\<lambda>r. r \<noteq> [] \<and> hd r \<notin> set terminal_statuses) pre"
    and "t \<in> set terminal_statuses"
  shows "\<exists>w'. wait_for_instance_refresh a rid w = Some (Inr (), w')
           \<and> io_of (trace w') = io_of (trace w)
                @ concat (replicate (length pre) [Call (DescribeInstanceRefreshes a rid), Sleep 10])
                @ [Call (DescribeInstanceRefreshes a rid)]
           \<and> describe_instance_refreshes_q w' = q
           \<and> last (trace w') = Log RootLogger INFO ''Instance refresh {status}'' [S t]"
proof -
  let ?w0 = "logging_info
       ''Waiting for instance refresh {instance_refresh_id} to complete for ASG: {asg_name}''
       [S rid, S a] w"
  from assms(1) have "describe_instance_refreshes_q ?w0 = map Inr pre @ Inr (t # ts) # q"
    by simp
  from wait_for_instance_refresh_loop_polls [OF this assms(2,3), of a rid] obtain w' where
    w': "wait_for_instance_refresh_loop a rid ?w0 = Some (Inr (), w')"
    "io_of (trace w') = io_of (trace ?w0)
       @ concat (replicate (length pre) [Call (DescribeInstanceRefreshes a rid), Sleep 10])
       @ [Call (DescribeInstanceRefreshes a rid)]"
    "describe_instance_refreshes_q w' = q"
    "last (trace w') = Log RootLogger INFO ''Instance refresh {status}'' [S t]"
    by blast
  from w'(1) have "wait_for_instance_refresh_body a rid w = Some (Inr (), w')"
    by (simp add: wait_for_instance_refresh_body_def)
  then have "wait_for_instance_refresh a rid w = Some (Inr (), w')"
    unfolding wait_for_instance_refresh_def by (rule retry_Inr)
  with w'(2-4) show ?thesis by simp
qed

section \<open>Polling a refresh\<close>

text \<open>
  C4. When the status queries return statuses, none terminal before the first terminal
  one, \<open>wait_for_instance_refresh\<close> returns; what it did is one query for each status
  up to that one, with a sleep of 10 after each query but the last, and nothing after
  the query that returned the terminal status: the responses behind it are left unread.
\<close>

theorem wait_for_instance_refresh_stops_at_first_terminal:
  assumes "describe_instance_refreshes_q w = map Inr pre @ Inr (t # ts) # q"
    and "list_all (\<lambda>r. r \<noteq> [] \<and> hd r \<notin> set terminal_statuses) pre"
    and "t \<in> set terminal_statuses"
  shows "\<exists>w'. wait_for_instance_refresh a rid w = Some (Inr (), w')
           \<and> io_of (trace w') = io_of (trace w)
                @ concat (replicate (length pre) [Call (DescribeInstanceRefreshes a rid), Sleep 10])
                @ [Call (DescribeInstanceRefreshes a rid)]
           \<and> describe_instance_refreshes_q w' = q"
  using wait_for_instance_refresh_polls [OF assms, of a rid] by blast

theorem wait_for_instance_refresh_stops_at_first_terminal_witness:
  "describe_instance_refreshes_q world_refresh_succeeds
     = map Inr [[''Pending''], [''InProgress'']] @ Inr [''Successful''] # [Inr [''Failed'']]
   \<and> list_all (\<lambda>r. r \<noteq> [] \<and> hd r \<notin> set terminal_statuses) [[''Pending''], [''InProgress'']]
   \<and> ''Successful'' \<in> set terminal_statuses
   \<and> (\<exists>w'. wait_for_instance_refresh ''web'' ''refresh-1'' world_refresh_succeeds
               = Some (Inr (), w')
         \<and> io_of (trace w') =
              [Call (DescribeInstanceRefreshes ''web'' ''refresh-1''), Sleep 10,
               Call (DescribeInstanceRefreshes ''web'' ''refresh-1''), Sleep 10,
               Call (DescribeInstanceRefreshes ''web'' ''refresh-1'')]
         \<and> describe_instance_refreshes_q w' = [Inr [''Failed'']])"
proof -
  have q: "describe_instance_refreshes_q world_refresh_succeeds
     = map Inr [[''Pending''], [''InProgress'']] @ Inr [''Successful''] # [Inr [''Failed'']]"
    by (simp add: world_refresh_succeeds_def)
  have pre: "list_all (\<lambda>r. r \<noteq> [] \<and> hd r \<notin> set terminal_statuses)
               [[''Pending''], [''InProgress'']]"
    by (simp add: terminal_statuses_def)
  have t: "''Successful'' \<in> set terminal_statuses"
    by (simp add: terminal_statuses_def)
  have tr: "trace world_refresh_succeeds = []"
    by (simp add: world_refresh_succeeds_def empty_world_def)
  from wait_for_instance_refresh_stops_at_first_terminal
         [OF q pre t, of "''web''" "''refresh-1''"] tr
  have "\<exists>w'. wait_for_instance_refresh ''web'' ''refresh-1'' world_refresh_succeeds
               = Some (Inr (), w')
         \<and> io_of (trace w') =
              [Call (DescribeInstanceRefreshes ''web'' ''refresh-1''), Sleep 10,
               Call (DescribeInstanceRefreshes ''web'' ''refresh-1''), Sleep 10,
               Call (DescribeInstanceRefreshes ''web'' ''refresh-1'')]
         \<and> describe_instance_refreshes_q w' = [Inr [''Failed'']]"
    by (simp add: numeral_2_eq_2)
  with q pre t show ?thesis by blast
qed

text \<open>
  C7, as the spec states it, fails: \<open>wait_for_instance_refresh\<close> has no \<open>return\<close>
  statement. A refresh observed as \<open>Failed\<close> and one observed as \<open>Successful\<close> give the
  caller the same value.
\<close>

theorem wait_for_instance_refresh_returns_status_counterexample:
  "map_option fst (wait_for_instance_refresh ''web'' ''refresh-1'' world_refresh_fails)
     = Some (Inr ())
   \<and> map_option fst (wait_for_instance_refresh ''web'' ''refresh-1'' world_refresh_succeeds)
     = Some (Inr ())"
proof -
  have "describe_instance_refreshes_q world_refresh_fails
          = map Inr [[''InProgress'']] @ Inr [''Failed''] # []"
    by (simp add: world_refresh_fails_def)
  from wait_for_instance_refresh_polls [OF this, of "''web''" "''refresh-1''"]
  have 1: "map_option fst (wait_for_instance_refresh ''web'' ''refresh-1'' world_refresh_fails)
     = Some (Inr ())"
    by (auto simp: terminal_statuses_def)
  have "describe_instance_refreshes_q world_refresh_succeeds
     = map Inr [[''Pending''], [''InProgress'']] @ Inr [''Successful''] # [Inr [''Failed'']]"
    by (simp add: world_refresh_succeeds_def)
  from wait_for_instance_refresh_polls [OF this, of "''web''" "''refresh-1''"]
  have 2: "map_option fst (wait_for_instance_refresh ''web'' ''refresh-1'' world_refresh_succeeds)
     = Some (Inr ())"
    by (auto simp: terminal_statuses_def)
  from 1 2 show ?thesis by simp
qed

text \<open>
  C7, amended. Whatever terminal status it observes, \<open>wait_for_instance_refresh\<close>
  returns no value, the same for \<open>Successful\<close>, \<open>Failed\<close> and \<open>Cancelled\<close>; the status
  goes to the log only, in the last line the method writes.
\<close>

theorem wait_for_instance_refresh_logs_status:
  assumes "describe_instance_refreshes_q w = map Inr pre @ Inr (t # ts) # q"
    and "list_all (\<lambda>r. r \<noteq> [] \<and> hd r \<notin> set terminal_statuses) pre"
    and "t \<in> set terminal_statuses"
  shows "\<exists>w'. wait_for_instance_refresh a rid w = Some (Inr (), w')
           \<and> last (trace w') = Log RootLogger INFO ''Instance refresh {status}'' [S t]"
  using wait_for_instance_refresh_polls [OF assms, of a rid] by blast

theorem wait_for_instance_refresh_logs_status_witness:
  "describe_instance_refreshes_q world_refresh_fails
     = map Inr [[''InProgress'']] @ Inr [''Failed''] # []
   \<and> list_all (\<lambda>r. r \<noteq> [] \<and> hd r \<notin> set terminal_statuses) [[''InProgress'']]
   \<and> ''Failed'' \<in> set terminal_statuses
   \<and> (\<exists>w'. wait_for_instance_refresh ''web'' ''refresh-1'' world_refresh_fails
               = Some (Inr (), w')
         \<and> last (trace w') = Log RootLogger INFO ''Instance refresh {status}'' [S ''Failed''])"
proof -
  have q: "describe_instance_refreshes_q world_refresh_fails
     = map Inr [[''InProgress'']] @ Inr [''Failed''] # []"
    by (simp add: world_refresh_fails_def)
  have pre: "list_all (\<lambda>r. r \<noteq> [] \<and> hd r \<notin> set terminal_statuses) [[''InProgress'']]"
    by (simp add: terminal_statuses_def)
  have t: "''Failed'' \<in> set terminal_statuses"
    by (simp add: terminal_statuses_def)
  from wait_for_instance_refresh_logs_status [OF q pre t, of "''web''" "''refresh-1''"] q pre t
  show ?thesis by blast
qed

lemma io_of_map_Call [simp]: "io_of (map (\<lambda>i. Call (f i)) xs) = map (\<lambda>i. Call (f i)) xs"
  by (induction xs) simp_all

lemma terminate_instances_Cons:
  "terminate_instances_q w = r # q \<Longrightarrow>
     \<exists>w1. terminate_instances iid w = Some (r, w1)
          \<and> trace w1 = trace w @ [Call (TerminateInstances iid)]
          \<and> terminate_instances_q w1 = q
          \<and> describe_auto_scaling_instances_q w1 = describe_auto_scaling_instances_q w"
  by (simp add: terminate_instances_def)

lemma describe_auto_scaling_instances_Cons:
  "describe_auto_scaling_instances_q w = r # q \<Longrightarrow>
     \<exists>w1. describe_auto_scaling_instances w = Some (r, w1)
          \<and> trace w1 = trace w @ [Call DescribeAutoScalingInstances]
          \<and> describe_auto_scaling_instances_q w1 = q
          \<and> terminate_instances_q w1 = terminate_instances_q w"
  by (simp add: describe_auto_scaling_instances_def)

lemma terminate_each_all:
  assumes "terminate_instances_q w = replicate (length xs) (Inr ()) @ tq"
  shows "\<exists>w'. terminate_each xs w = Some (Inr (), w')
           \<and> trace w' = trace w @ map (\<lambda>i. Call (TerminateInstances (InstanceId i))) xs
           \<and> terminate_instances_q w' = tq
           \<and> describe_auto_scaling_instances_q w' = describe_auto_scaling_instances_q w"
  using assms
proof (induction xs arbitrary: w)
  case Nil
  then show ?case by simp
next
  case (Cons x xs)
  then have "terminate_instances_q w = Inr () # (replicate (length xs) (Inr ()) @ tq)"
    by simp
  from terminate_instances_Cons [OF this, of "InstanceId x"] obtain w1 where
    w1: "terminate_instances (InstanceId x) w = Some (Inr (), w1)"
        "trace w1 = trace w @ [Call (TerminateInstances (InstanceId x))]"
        "terminate_instances_q w1 = replicate (length xs) (Inr ()) @ tq"
        "describe_auto_scaling_instances_q w1 = describe_auto_scaling_instances_q w"
    by blast
  from Cons.IH [OF w1(3)] obtain w' where
    "terminate_each xs w1 = Some (Inr (), w')"
    "trace w' = trace w1 @ map (\<lambda>i. Call (TerminateInstances (InstanceId i))) xs"
    "terminate_instances_q w' = tq"
    "describe_auto_scaling_instances_q w' = describe_auto_scaling_instances_q w1"
    by blast
  with w1 show ?case by simp
qed

lemma verify_old_instances_termination_loop_reaps:
  assumes "describe_auto_scaling_instances_q w = map Inr pre @ Inr final # q"
    and "list_all (\<lambda>l. old_instances_of a l \<noteq> []) pre"
    and "old_instances_of a final = []"
    and "terminate_instances_q w
           = replicate (length (concat (map (old_instances_of a) pre))) (Inr ()) @ tq"
  shows "\<exists>w'. verify_old_instances_termination_loop a w = Some (Inr (), w')
           \<and> io_of (trace w') = io_of (trace w)
                @ concat (map (\<lambda>l. Call DescribeAutoScalingInstances
                                 # map (\<lambda>i. Call (TerminateInstances (InstanceId i)))
                                       (old_instances_of a l)
                                 @ [Sleep 30]) pre)
                @ [Call DescribeAutoScalingInstances]
           \<and> describe_auto_scaling_instances_q w' = q
           \<and> terminate_instances_q w' = tq"
  using assms
proof (induction pre arbitrary: w)
  case Nil
  then have "describe_auto_scaling_instances_q w = Inr final # q" by simp
  from describe_auto_scaling_instances_Cons [OF this] Nil.prems(3,4)
  show ?case
    by (auto simp: verify_old_instances_termination_loop.simps [of a w])
next
  case (Cons l pre)
  let ?old = "old_instances_of a l"
  from Cons.prems(2) have old: "?old \<noteq> []" by simp
  from Cons.prems(1) have "describe_auto_scaling_instances_q w
       = Inr l # (map Inr pre @ Inr final # q)"
    by simp
  from describe_auto_scaling_instances_Cons [OF this] obtain w1 where
    w1: "describe_auto_scaling_instances w = Some (Inr l, w1)"
        "trace w1 = trace w @ [Call DescribeAutoScalingInstances]"
        "describe_auto_scaling_instances_q w1 = map Inr pre @ Inr final # q"
        "terminate_instances_q w1 = terminate_instances_q w"
    by blast
  let ?w1 = "logging_info ''Waiting for old instances to terminate...'' [] w1"
  from Cons.prems(4) w1(4)
  have "terminate_instances_q ?w1 = replicate (length ?old) (Inr ())
          @ (replicate (length (concat (map (old_instances_of a) pre))) (Inr ()) @ tq)"
    by (simp add: replicate_add)
  from terminate_each_all [OF this] obtain w2 where
    w2: "terminate_each ?old ?w1 = Some (Inr (), w2)"
        "trace w2 = trace ?w1 @ map (\<lambda>i. Call (TerminateInstances (InstanceId i))) ?old"
        "terminate_instances_q w2
           = replicate (length (concat (map (old_instances_of a) pre))) (Inr ()) @ tq"
        "describe_auto_scaling_instances_q w2 = describe_auto_scaling_instances_q ?w1"
    by blast
  have step: "verify_old_instances_termination_loop a w
                = verify_old_instances_termination_loop a (sleep 30 w2)"
    using w1(1) w2(1) old
    by (simp add: verify_old_instances_termination_loop.simps [of a w])
  have "describe_auto_scaling_instances_q (sleep 30 w2) = map Inr pre @ Inr final # q"
    using w2(4) w1(3) by simp
  moreover from Cons.prems(2) have "list_all (\<lambda>l. old_instances_of a l \<noteq> []) pre"
    by simp
  moreover have "terminate_instances_q (sleep 30 w2)
           = replicate (length (concat (map (old_instances_of a) pre))) (Inr ()) @ tq"
    using w2(3) by simp
  ultimately obtain w' where
    "verify_old_instances_termination_loop a (sleep 30 w2) = Some (Inr (), w')"
    "io_of (trace w') = io_of (trace (sleep 30 w2))
                @ concat (map (\<lambda>l. Call DescribeAutoScalingInstances
                                 # map (\<lambda>i. Call (TerminateInstances (InstanceId i)))
                                       (old_instances_of a l)
                                 @ [Sleep 30]) pre)
                @ [Call DescribeAutoScalingInstances]"
    "describe_auto_scaling_instances_q w' = q"
    "terminate_instances_q w' = tq"
    using Cons.IH [of "sleep 30 w2"] Cons.prems(3) by blast
  with step w1(2) w2(2) show ?case by simp
qed

section \<open>Verifying that the old instances are terminated\<close>

text \<open>
  C5, amended. When the listings succeed, all but the last with an instance of the
  group that is not in service and the last with none, and every termination succeeds,
  \<open>verify_old_instances_termination\<close> returns; for each listing but the last it lists,
  asks to terminate every instance of the group that is not \<open>InService\<close> and sleeps 30;
  with the last it lists and stops. When the first listing already has no such instance
  (\<open>pre = []\<close>) that is one listing, no termination and no sleep.
\<close>

theorem verify_old_instances_termination_reaps:
  assumes "describe_auto_scaling_instances_q w = map Inr pre @ Inr final # q"
    and "list_all (\<lambda>l. old_instances_of a l \<noteq> []) pre"
    and "old_instances_of a final = []"
    and "terminate_instances_q w
           = replicate (length (concat (map (old_instances_of a) pre))) (Inr ()) @ tq"
  shows "\<exists>w'. verify_old_instances_termination a w = Some (Inr (), w')
           \<and> io_of (trace w') = io_of (trace w)
                @ concat (map (\<lambda>l. Call DescribeAutoScalingInstances
                                 # map (\<lambda>i. Call (TerminateInstances (InstanceId i)))
                                       (filter (\<lambda>i. InstanceGroupName i = a
                                                    \<and> LifecycleState i \<noteq> ''InService'') l)
                                 @ [Sleep 30]) pre)
                @ [Call DescribeAutoScalingInstances]
           \<and> describe_auto_scaling_instances_q w' = q
           \<and> terminate_instances_q w' = tq"
proof -
  let ?w0 = "logging_info ''Verifying that old instances in ASG: {asg_name} are terminated''
               [S a] w"
  from assms(1,4)
  have "describe_auto_scaling_instances_q ?w0 = map Inr pre @ Inr final # q"
    and "terminate_instances_q ?w0
           = replicate (length (concat (map (old_instances_of a) pre))) (Inr ()) @ tq"
    by simp_all
  from verify_old_instances_termination_loop_reaps [OF this(1) assms(2,3) this(2)]
  obtain w' where
    w': "verify_old_instances_termination_loop a ?w0 = Some (Inr (), w')"
    "io_of (trace w') = io_of (trace ?w0)
                @ concat (map (\<lambda>l. Call DescribeAutoScalingInstances
                                 # map (\<lambda>i. Call (TerminateInstances (InstanceId i)))
                                       (old_instances_of a l)
                                 @ [Sleep 30]) pre)
                @ [Call DescribeAutoScalingInstances]"
    "describe_auto_scaling_instances_q w' = q"
    "terminate_instances_q w' = tq"
    by blast
  from w'(1) have "verify_old_instances_termination_body a w = Some (Inr (), w')"
    by (simp add: verify_old_instances_termination_body_def)
  then have "verify_old_instances_termination a w = Some (Inr (), w')"
    unfolding verify_old_instances_termination_def by (rule retry_Inr)
  with w'(2-4) show ?thesis
    by (simp add: old_instances_of_def)
qed

theorem verify_old_instances_termination_reaps_witness:
  "describe_auto_scaling_instances_q world_draining
     = map Inr [listing_draining] @ Inr listing_converged # []
   \<and> list_all (\<lambda>l. old_instances_of ''web'' l \<noteq> []) [listing_draining]
   \<and> old_instances_of ''web'' listing_converged = []
   \<and> terminate_instances_q world_draining
       = replicate (length (concat (map (old_instances_of ''web'') [listing_draining]))) (Inr ())
         @ []
   \<and> (\<exists>w'. verify_old_instances_termination ''web'' world_draining = Some (Inr (), w')
         \<and> io_of (trace w') =
              [Call DescribeAutoScalingInstances, Call (TerminateInstances ''i-1''), Sleep 30,
               Call DescribeAutoScalingInstances]
         \<and> describe_auto_scaling_instances_q w' = []
         \<and> terminate_instances_q w' = [])"
proof -
  have old: "old_instances_of ''web'' listing_draining
               = [\<lparr>InstanceId = ''i-1'', InstanceGroupName = ''web'',
                   LifecycleState = ''Terminating''\<rparr>]"
    by (simp add: old_instances_of_def listing_draining_def)
  have 1: "describe_auto_scaling_instances_q world_draining
     = map Inr [listing_draining] @ Inr listing_converged # []"
    by (simp add: world_draining_def)
  have 2: "list_all (\<lambda>l. old_instances_of ''web'' l \<noteq> []) [listing_draining]"
    by (simp add: old)
  have 3: "old_instances_of ''web'' listing_converged = []"
    by (simp add: old_instances_of_def listing_converged_def)
  have 4: "terminate_instances_q world_draining
       = replicate (length (concat (map (old_instances_of ''web'') [listing_draining]))) (Inr ())
         @ []"
    by (simp add: world_draining_def old)
  have tr: "trace world_draining = []"
    by (simp add: world_draining_def empty_world_def)
  have f: "filter (\<lambda>i. InstanceGroupName i = ''web'' \<and> LifecycleState i \<noteq> ''InService'')
             listing_draining
           = [\<lparr>InstanceId = ''i-1'', InstanceGroupName = ''web'',
               LifecycleState = ''Terminating''\<rparr>]"
    using old by (simp add: old_instances_of_def)
  from verify_old_instances_termination_reaps [OF 1 2 3 4] tr
  have "\<exists>w'. verify_old_instances_termination ''web'' world_draining = Some (Inr (), w')
         \<and> io_of (trace w') =
              [Call DescribeAutoScalingInstances, Call (TerminateInstances ''i-1''), Sleep 30,
               Call DescribeAutoScalingInstances]
         \<and> describe_auto_scaling_instances_q w' = []
         \<and> terminate_instances_q w' = []"
    by (simp add: f)
  with 1 2 3 4 show ?thesis by blast
qed

section \<open>Updating the group\<close>

lemma logging_error_simps [simp]:
  "trace (logging_error msg args w) = trace w @ [Log RootLogger ERROR msg args]"
  "describe_auto_scaling_groups_q (logging_error msg args w) = describe_auto_scaling_groups_q w"
  "describe_launch_template_versions_q (logging_error msg args w)
     = describe_launch_template_versions_q w"
  "create_launch_template_version_q (logging_error msg args w)
     = create_launch_template_version_q w"
  "update_auto_scaling_group_q (logging_error msg args w) = update_auto_scaling_group_q w"
  "start_instance_refresh_q (logging_error msg args w) = start_instance_refresh_q w"
  "describe_instance_refreshes_q (logging_error msg args w) = describe_instance_refreshes_q w"
  "describe_auto_scaling_instances_q (logging_error msg args w)
     = describe_auto_scaling_instances_q w"
  "terminate_instances_q (logging_error msg args w) = terminate_instances_q w"
  by (simp_all add: logging_error_def)

lemma logger_info_simps [simp]:
  "trace (logger_info msg args w) = trace w @ [Log DeploymentLogger INFO msg args]"
  "describe_auto_scaling_groups_q (logger_info msg args w) = describe_auto_scaling_groups_q w"
  "describe_launch_template_versions_q (logger_info msg args w)
     = describe_launch_template_versions_q w"
  "create_launch_template_version_q (logger_info msg args w)
     = create_launch_template_version_q w"
  "update_auto_scaling_group_q (logger_info msg args w) = update_auto_scaling_group_q w"
  "start_instance_refresh_q (logger_info msg args w) = start_instance_refresh_q w"
  "describe_instance_refreshes_q (logger_info msg args w) = describe_instance_refreshes_q w"
  "describe_auto_scaling_instances_q (logger_info msg args w)
     = describe_auto_scaling_instances_q w"
  "terminate_instances_q (logger_info msg args w) = terminate_instances_q w"
  by (simp_all add: logger_info_def)

lemma logger_error_simps [simp]:
  "trace (logger_error msg args w) = trace w @ [Log DeploymentLogger ERROR msg args]"
  by (simp_all add: logger_error_def)

lemma initialize_aws_sdk_simps [simp]:
  "trace (initialize_aws_sdk w) = trace w @ [Log RootLogger INFO ''Initializing AWS SDK'' []]"
  "describe_auto_scaling_groups_q (initialize_aws_sdk w) = describe_auto_scaling_groups_q w"
  by (simp_all add: initialize_aws_sdk_def)

lemma lookup_events_not_mutating: "list_all lookup_event evs \<Longrightarrow> mutating_calls evs = []"
proof (induction evs)
  case Nil
  then show ?case by simp
next
  case (Cons e evs)
  then show ?case by (cases e) auto
qed

lemma extends_lookup_mutating_calls:
  "extends lookup_event w w' \<Longrightarrow> mutating_calls (trace w') = mutating_calls (trace w)"
  by (auto simp: extends_iff lookup_events_not_mutating)

lemma extends_prefix: "extends P w w' \<Longrightarrow> prefix (trace w) (trace w')"
  by (auto simp: extends_iff)

lemma create_launch_template_version_Cons:
  "create_launch_template_version_q w = r # q \<Longrightarrow>
     \<exists>w1. create_launch_template_version l v i w = Some (r, w1)
          \<and> trace w1 = trace w @ [Call (CreateLaunchTemplateVersion l v i)]
          \<and> create_launch_template_version_q w1 = q
          \<and> update_auto_scaling_group_q w1 = update_auto_scaling_group_q w"
  by (simp add: create_launch_template_version_def)

lemma autoscaling_update_auto_scaling_group_Cons:
  "update_auto_scaling_group_q w = r # q \<Longrightarrow>
     \<exists>w1. autoscaling_update_auto_scaling_group n d mn mx lt w = Some (r, w1)
          \<and> trace w1 = trace w @ [Call (UpdateAutoScalingGroup n d mn mx lt)]
          \<and> update_auto_scaling_group_q w1 = q
          \<and> create_launch_template_version_q w1 = create_launch_template_version_q w"
  by (simp add: autoscaling_update_auto_scaling_group_def)

text \<open>The three ways through the body of \<open>update_auto_scaling_group\<close> once the image is resolved.\<close>

lemma update_auto_scaling_group_body_unchanged:
  assumes "LaunchTemplate asg = Some lt"
    and "get_current_ami_id (LaunchTemplateId lt) (Version lt)
           (logging_info
              ''Checking if Auto Scaling Group needs to be updated with new AMI or capacity settings''
              [] w) = Some (Inr new_ami, w1)"
    and "DesiredCapacity asg = d" and "MinSize asg = mn" and "MaxSize asg = mx"
  shows "update_auto_scaling_group_body asg new_ami d mn mx w
           = Some (Inr None,
               logging_info
                 ''AMI ID, desired capacity, min size, and max size have not changed, no update required''
                 [] w1)"
  using assms by (simp add: update_auto_scaling_group_body_def)

lemma update_auto_scaling_group_body_new_image:
  assumes "LaunchTemplate asg = Some lt"
    and "get_current_ami_id (LaunchTemplateId lt) (Version lt)
           (logging_info
              ''Checking if Auto Scaling Group needs to be updated with new AMI or capacity settings''
              [] w) = Some (Inr cur, w1)"
    and "cur \<noteq> new_ami"
    and "create_launch_template_version_q w1 = Inr v # cq"
    and "update_auto_scaling_group_q w1 = Inr () # uq"
  shows "\<exists>w'. update_auto_scaling_group_body asg new_ami d mn mx w
                 = Some (Inr (Some (VersionNumber v)), w')
           \<and> mutating_calls (trace w') = mutating_calls (trace w1)
                @ [CreateLaunchTemplateVersion (LaunchTemplateId lt) (Version lt) new_ami,
                   UpdateAutoScalingGroup (AutoScalingGroupName asg) d mn mx
                     (Some \<lparr>LaunchTemplateId = LaunchTemplateId lt, Version = str_int v\<rparr>)]
           \<and> create_launch_template_version_q w' = cq
           \<and> update_auto_scaling_group_q w' = uq"
proof -
  let ?w2 = "logging_info ''AMI ID has changed, creating new version of the launch template'' []
               (logging_info ''Updating Auto Scaling Group with new settings'' [] w1)"
  from assms(4) have "create_launch_template_version_q ?w2 = Inr v # cq" by simp
  from create_launch_template_version_Cons [OF this, of "LaunchTemplateId lt" "Version lt" new_ami]
  obtain w3 where
    w3: "create_launch_template_version (LaunchTemplateId lt) (Version lt) new_ami ?w2
           = Some (Inr v, w3)"
        "trace w3 = trace ?w2
           @ [Call (CreateLaunchTemplateVersion (LaunchTemplateId lt) (Version lt) new_ami)]"
        "create_launch_template_version_q w3 = cq"
        "update_auto_scaling_group_q w3 = update_auto_scaling_group_q ?w2"
    by blast
  let ?ref = "Some \<lparr>LaunchTemplateId = LaunchTemplateId lt, Version = str_int v\<rparr>"
  from w3(4) assms(5) have "update_auto_scaling_group_q w3 = Inr () # uq" by simp
  from autoscaling_update_auto_scaling_group_Cons
         [OF this, of "AutoScalingGroupName asg" d mn mx ?ref]
  obtain w4 where
    w4: "autoscaling_update_auto_scaling_group (AutoScalingGroupName asg) d mn mx ?ref w3
           = Some (Inr (), w4)"
        "trace w4 = trace w3 @ [Call (UpdateAutoScalingGroup (AutoScalingGroupName asg) d mn mx ?ref)]"
        "update_auto_scaling_group_q w4 = uq"
        "create_launch_template_version_q w4 = create_launch_template_version_q w3"
    by blast
  have "update_auto_scaling_group_body asg new_ami d mn mx w
          = Some (Inr (Some (VersionNumber v)), w4)"
    using assms(1-3) w3(1) w4(1) by (simp add: update_auto_scaling_group_body_def)
  with w3 w4 show ?thesis by simp
qed

lemma update_auto_scaling_group_body_capacity_only:
  assumes "LaunchTemplate asg = Some lt"
    and "get_current_ami_id (LaunchTemplateId lt) (Version lt)
           (logging_info
              ''Checking if Auto Scaling Group needs to be updated with new AMI or capacity settings''
              [] w) = Some (Inr new_ami, w1)"
    and "\<not> (DesiredCapacity asg = d \<and> MinSize asg = mn \<and> MaxSize asg = mx)"
    and "update_auto_scaling_group_q w1 = Inr () # uq"
  shows "\<exists>w'. update_auto_scaling_group_body asg new_ami d mn mx w
                 = Some (Inr (Some (VersionString (Version lt))), w')
           \<and> trace w' = trace w1
                @ [Log RootLogger INFO ''Updating Auto Scaling Group with new settings'' [],
                   Call (UpdateAutoScalingGroup (AutoScalingGroupName asg) d mn mx None)]
           \<and> update_auto_scaling_group_q w' = uq
           \<and> create_launch_template_version_q w' = create_launch_template_version_q w1"
proof -
  let ?w2 = "logging_info ''Updating Auto Scaling Group with new settings'' [] w1"
  from assms(4) have "update_auto_scaling_group_q ?w2 = Inr () # uq" by simp
  from autoscaling_update_auto_scaling_group_Cons
         [OF this, of "AutoScalingGroupName asg" d mn mx None]
  obtain w4 where
    w4: "autoscaling_update_auto_scaling_group (AutoScalingGroupName asg) d mn mx None ?w2
           = Some (Inr (), w4)"
        "trace w4 = trace ?w2 @ [Call (UpdateAutoScalingGroup (AutoScalingGroupName asg) d mn mx None)]"
        "update_auto_scaling_group_q w4 = uq"
        "create_launch_template_version_q w4 = create_launch_template_version_q ?w2"
    by blast
  have "update_auto_scaling_group_body asg new_ami d mn mx w
          = Some (Inr (Some (VersionString (Version lt))), w4)"
    using assms(1-3) w4(1) by (auto simp: update_auto_scaling_group_body_def)
  with w4 show ?thesis by simp
qed

lemma resolved_image_mutating_calls:
  assumes "get_current_ami_id l v (logging_info msg args w) = Some (r, w1)"
  shows "mutating_calls (trace w1) = mutating_calls (trace w)"
  using extends_lookup_mutating_calls [OF get_current_ami_id_lookup [OF assms]] by simp

text \<open>
  C2, amended. When the image resolved from the group's launch template differs from
  the target, and the creation and the update each succeed at the first attempt,
  \<open>update_auto_scaling_group\<close> makes two mutating calls: it creates one launch template
  version from the group's version with the target image as its only data, and updates
  the group once with the target capacities and the new version; it returns the new
  version's number. The capacities play no part.
\<close>

theorem update_auto_scaling_group_new_image:
  assumes "LaunchTemplate asg = Some lt"
    and "get_current_ami_id (LaunchTemplateId lt) (Version lt)
           (logging_info
              ''Checking if Auto Scaling Group needs to be updated with new AMI or capacity settings''
              [] w) = Some (Inr cur, w1)"
    and "cur \<noteq> new_ami"
    and "create_launch_template_version_q w1 = Inr v # cq"
    and "update_auto_scaling_group_q w1 = Inr () # uq"
  shows "\<exists>w'. update_auto_scaling_group asg new_ami d mn mx w
                 = Some (Inr (Some (VersionNumber v)), w')
           \<and> mutating_calls (trace w') = mutating_calls (trace w)
                @ [CreateLaunchTemplateVersion (LaunchTemplateId lt) (Version lt) new_ami,
                   UpdateAutoScalingGroup (AutoScalingGroupName asg) d mn mx
                     (Some \<lparr>LaunchTemplateId = LaunchTemplateId lt, Version = str_int v\<rparr>)]
           \<and> create_launch_template_version_q w' = cq
           \<and> update_auto_scaling_group_q w' = uq"
proof -
  from update_auto_scaling_group_body_new_image [OF assms, of d mn mx] obtain w' where
    w': "update_auto_scaling_group_body asg new_ami d mn mx w
           = Some (Inr (Some (VersionNumber v)), w')"
        "mutating_calls (trace w') = mutating_calls (trace w1)
           @ [CreateLaunchTemplateVersion (LaunchTemplateId lt) (Version lt) new_ami,
              UpdateAutoScalingGroup (AutoScalingGroupName asg) d mn mx
                (Some \<lparr>LaunchTemplateId = LaunchTemplateId lt, Version = str_int v\<rparr>)]"
        "create_launch_template_version_q w' = cq"
        "update_auto_scaling_group_q w' = uq"
    by blast
  from w'(1) have "update_auto_scaling_group asg new_ami d mn mx w
                     = Some (Inr (Some (VersionNumber v)), w')"
    unfolding update_auto_scaling_group_def by (rule retry_Inr)
  with w'(2-4) resolved_image_mutating_calls [OF assms(2)] show ?thesis by simp
qed

theorem update_auto_scaling_group_new_image_witness:
  "LaunchTemplate asg_v1 = Some \<lparr>LaunchTemplateId = ''lt-1'', Version = ''7''\<rparr>
   \<and> get_current_ami_id ''lt-1'' ''7''
        (logging_info
           ''Checking if Auto Scaling Group needs to be updated with new AMI or capacity settings''
           [] world_new_image) = Some (Inr ''ami-v1'', world_resolved_v1)
   \<and> ''ami-v1'' \<noteq> ''ami-v2''
   \<and> create_launch_template_version_q world_resolved_v1 = Inr 8 # []
   \<and> update_auto_scaling_group_q world_resolved_v1 = Inr () # []
   \<and> (\<exists>w'. update_auto_scaling_group asg_v1 ''ami-v2'' 2 2 2 world_new_image
               = Some (Inr (Some (VersionNumber 8)), w')
         \<and> mutating_calls (trace w') =
              [CreateLaunchTemplateVersion ''lt-1'' ''7'' ''ami-v2'',
               UpdateAutoScalingGroup ''web'' 2 2 2
                 (Some \<lparr>LaunchTemplateId = ''lt-1'', Version = ''8''\<rparr>)]
         \<and> create_launch_template_version_q w' = []
         \<and> update_auto_scaling_group_q w' = [])"
proof -
  let ?lt = "\<lparr>LaunchTemplateId = ''lt-1'', Version = ''7''\<rparr>"
  have 1: "LaunchTemplate asg_v1 = Some ?lt"
    by (simp add: asg_v1_def)
  have "get_current_ami_id ''lt-1'' ''7''
        (logging_info
           ''Checking if Auto Scaling Group needs to be updated with new AMI or capacity settings''
           [] world_new_image) = Some (Inr ''ami-v1'', world_resolved_v1)"
    by code_simp
  then have 2: "get_current_ami_id (LaunchTemplateId ?lt) (Version ?lt)
        (logging_info
           ''Checking if Auto Scaling Group needs to be updated with new AMI or capacity settings''
           [] world_new_image) = Some (Inr ''ami-v1'', world_resolved_v1)"
    by simp
  have 3: "''ami-v1'' \<noteq> ''ami-v2''" by simp
  have 4: "create_launch_template_version_q world_resolved_v1 = Inr 8 # []"
    and 5: "update_auto_scaling_group_q world_resolved_v1 = Inr () # []"
    by (simp_all add: world_resolved_v1_def world_new_image_def)
  have tr: "trace world_new_image = []"
    by (simp add: world_new_image_def empty_world_def)
  have name: "AutoScalingGroupName asg_v1 = ''web''"
    by (simp add: asg_v1_def)
  have str: "str_int 8 = ''8''" by code_simp
  from update_auto_scaling_group_new_image [OF 1 2 3 4 5, of 2 2 2] tr name str
  have "\<exists>w'. update_auto_scaling_group asg_v1 ''ami-v2'' 2 2 2 world_new_image
               = Some (Inr (Some (VersionNumber 8)), w')
         \<and> mutating_calls (trace w') =
              [CreateLaunchTemplateVersion ''lt-1'' ''7'' ''ami-v2'',
               UpdateAutoScalingGroup ''web'' 2 2 2
                 (Some \<lparr>LaunchTemplateId = ''lt-1'', Version = ''8''\<rparr>)]
         \<and> create_launch_template_version_q w' = []
         \<and> update_auto_scaling_group_q w' = []"
    by simp
  with 1 2 3 4 5 show ?thesis
    by simp
qed

section \<open>The stages of a run\<close>

lemma retrying_first_attempt:
  assumes f: "\<And>v r v'. f v = Some (r, v') \<Longrightarrow> extends P v v'"
    and s: "\<And>n. P (Sleep n)"
    and r: "retrying k a f w = Some (r, w')"
  shows "\<exists>r1 w1. f w = Some (r1, w1) \<and> extends P w1 w'"
proof (cases k)
  case 0
  with r show ?thesis by (auto split: option.splits sum.splits if_splits)
next
  case (Suc k')
  with r obtain r1 w1 where fw: "f w = Some (r1, w1)"
    by (auto split: option.splits)
  show ?thesis
  proof (cases "\<exists>e. r1 = Inl e \<and> is_ClientError e")
    case True
    with r fw Suc have "retrying k' (Suc a) f (sleep (wait_exponential a) w1) = Some (r, w')"
      by auto
    with f s have "extends P (sleep (wait_exponential a) w1) w'"
      by (blast intro: retrying_extends)
    then have "extends P w1 w'"
      unfolding sleep_def by (rule extends_after_emit) (rule s)
    with fw show ?thesis by blast
  next
    case False
    with r fw Suc have "w' = w1"
      by (auto split: sum.splits if_splits)
    with fw show ?thesis by auto
  qed
qed

lemma retry_first_attempt:
  assumes "\<And>v r v'. f v = Some (r, v') \<Longrightarrow> extends P v v'"
    and "\<And>n. P (Sleep n)"
    and "retry f w = Some (r, w')"
  shows "\<exists>r1 w1. f w = Some (r1, w1) \<and> extends P w1 w'"
  using assms unfolding retry_def by (blast intro: retrying_first_attempt)

lemma extends_mutating_calls:
  "extends P w w' \<Longrightarrow> \<exists>cs. mutating_calls (trace w') = mutating_calls (trace w) @ cs"
  by (auto simp: extends_iff)

lemma start_instance_refresh_first_call:
  assumes "start_instance_refresh n p w = Some (r, w')"
  shows "\<exists>cs. mutating_calls (trace w')
                 = mutating_calls (trace w) @ StartInstanceRefresh n p # cs"
proof -
  have "\<exists>r1 w1. start_instance_refresh_body n p w = Some (r1, w1) \<and> extends helper_event w1 w'"
    using assms unfolding start_instance_refresh_def
    by (rule retry_first_attempt [rotated 2]) (auto intro: start_instance_refresh_body_helper)
  then obtain r1 w1 where
    b: "start_instance_refresh_body n p w = Some (r1, w1)" and e: "extends helper_event w1 w'"
    by blast
  from b have "mutating_calls (trace w1) = mutating_calls (trace w) @ [StartInstanceRefresh n p]"
    by (auto simp: start_instance_refresh_body_def autoscaling_start_instance_refresh_def
          except_ClientError_def
        split: list.splits sum.splits if_splits)
  with extends_mutating_calls [OF e] show ?thesis by auto
qed

text \<open>Nothing but the last line of \<open>run\<close> writes the success marker.\<close>

lemma helper_not_marker:
  "extends helper_event v v' \<Longrightarrow> extends (\<lambda>e. e \<noteq> success_marker) v v'"
  by (erule extends_mono) (auto simp: success_marker_def)

lemma logger_info_not_marker:
  "msg \<noteq> ''Deployment process completed successfully'' \<Longrightarrow>
     extends (\<lambda>e. e \<noteq> success_marker) v (logger_info msg args v)"
  by (simp add: logger_info_def success_marker_def extends_emit)

lemma logger_error_not_marker:
  "extends (\<lambda>e. e \<noteq> success_marker) v (logger_error msg args v)"
  by (simp add: logger_error_def success_marker_def extends_emit)

lemma run_refresh_stages:
  assumes "run_refresh cfg v w = Some (r, w')"
  shows "\<exists>r1 w1. start_instance_refresh (auto_scaling_group cfg) (instance_refresh cfg)
                    (logger_info
                       ''ASG updated to use new launch template version: {new_version}''
                       [V v] w) = Some (r1, w1)
                 \<and> extends (\<lambda>e. e \<noteq> success_marker) w1 w'"
proof -
  let ?P = "\<lambda>e. e \<noteq> success_marker"
  let ?w0 = "logger_info ''ASG updated to use new launch template version: {new_version}'' [V v] w"
  from assms [unfolded run_refresh_def] and_then_SomeD
  consider (fail1) e where
      "start_instance_refresh (auto_scaling_group cfg) (instance_refresh cfg) ?w0
         = Some (Inl e, w')"
    | (ok1) rid w2 where
      "start_instance_refresh (auto_scaling_group cfg) (instance_refresh cfg) ?w0
         = Some (Inr rid, w2)"
      "and_then
         (wait_for_instance_refresh (auto_scaling_group cfg) rid
            (logger_info ''Started instance refresh with ID: {instance_refresh_id}'' [S rid] w2))
         (\<lambda>u w3.
            and_then
              (verify_old_instances_termination (auto_scaling_group cfg)
                 (logger_info ''Instance refresh completed successfully'' [] w3))
              (\<lambda>u w4. Some (Inr (), logger_info ''Old instances have been terminated'' [] w4)))
       = Some (r, w')"
    by blast
  then show ?thesis
  proof cases
    case fail1
    then show ?thesis by auto
  next
    case ok1
    let ?w2 = "logger_info ''Started instance refresh with ID: {instance_refresh_id}'' [S rid] w2"
    have e2: "extends ?P w2 ?w2"
      by (simp add: logger_info_not_marker)
    from ok1(2) and_then_SomeD
    consider (fail2) e where
        "wait_for_instance_refresh (auto_scaling_group cfg) rid ?w2 = Some (Inl e, w')"
      | (ok2) u w3 where
        "wait_for_instance_refresh (auto_scaling_group cfg) rid ?w2 = Some (Inr u, w3)"
        "and_then
           (verify_old_instances_termination (auto_scaling_group cfg)
              (logger_info ''Instance refresh completed successfully'' [] w3))
           (\<lambda>u w4. Some (Inr (), logger_info ''Old instances have been terminated'' [] w4))
         = Some (r, w')"
      by blast
    then have "extends ?P w2 w'"
    proof cases
      case fail2
      then have "extends ?P ?w2 w'"
        by (blast intro: helper_not_marker wait_for_instance_refresh_helper)
      with e2 show ?thesis by (rule extends_trans)
    next
      case ok2
      let ?w3 = "logger_info ''Instance refresh completed successfully'' [] w3"
      from ok2(1) have "extends ?P ?w2 w3"
        by (blast intro: helper_not_marker wait_for_instance_refresh_helper)
      with e2 have e3: "extends ?P w2 ?w3"
        by (blast intro: extends_trans logger_info_not_marker)
      from ok2(2) and_then_SomeD
      consider (fail3) e where
          "verify_old_instances_termination (auto_scaling_group cfg) ?w3 = Some (Inl e, w')"
        | (ok3) u4 w4 where
          "verify_old_instances_termination (auto_scaling_group cfg) ?w3 = Some (Inr u4, w4)"
          "w' = logger_info ''Old instances have been terminated'' [] w4"
        by blast
      then show ?thesis
      proof cases
        case fail3
        then have "extends ?P ?w3 w'"
          by (blast intro: helper_not_marker verify_old_instances_termination_helper)
        with e3 show ?thesis by (rule extends_trans)
      next
        case ok3
        from ok3(1) have "extends ?P ?w3 w4"
          by (blast intro: helper_not_marker verify_old_instances_termination_helper)
        with e3 ok3(2) show ?thesis
          by (blast intro: extends_trans logger_info_not_marker)
      qed
    qed
    with ok1(1) show ?thesis by blast
  qed
qed


lemma run_refresh_first_call:
  assumes "run_refresh cfg v w = Some (r, w')"
  shows "\<exists>cs. mutating_calls (trace w') = mutating_calls (trace w)
                 @ StartInstanceRefresh (auto_scaling_group cfg) (instance_refresh cfg) # cs"
proof -
  from run_refresh_stages [OF assms] obtain r1 w1 where
    s: "start_instance_refresh (auto_scaling_group cfg) (instance_refresh cfg)
       (logger_info ''ASG updated to use new launch template version: {new_version}'' [V v] w)
       = Some (r1, w1)"
    and e: "extends (\<lambda>e. e \<noteq> success_marker) w1 w'"
    by blast
  from start_instance_refresh_first_call [OF s] extends_mutating_calls [OF e]
  show ?thesis by auto
qed



section \<open>The retry policy on the wrapped methods\<close>

lemma discard_simps:
  "f w = None \<Longrightarrow> discard f w = None"
  "f w = Some (Inl e, w') \<Longrightarrow> discard f w = Some (Inl e, w')"
  "f w = Some (Inr x, w') \<Longrightarrow> discard f w = Some (Inr (), w')"
  by (simp_all add: discard_def)

lemma discard_cong: "f w = g v \<Longrightarrow> discard f w = discard g v"
  by (simp add: discard_def)

lemma discard_retrying: "discard (retrying k a f) w = retrying k a (discard f) w"
proof (induction k arbitrary: a w)
  case 0
  show ?case
  proof (cases "f w")
    case None
    then show ?thesis by (simp add: discard_def)
  next
    case (Some p)
    then show ?thesis
      by (cases p; cases "fst p") (auto simp: discard_def)
  qed
next
  case (Suc k)
  show ?case
  proof (cases "\<exists>e w1. f w = Some (Inl e, w1) \<and> is_ClientError e")
    case True
    then obtain e w1 where fw: "f w = Some (Inl e, w1)" "is_ClientError e" by blast
    then have "retrying (Suc k) a f w = retrying k (Suc a) f (sleep (wait_exponential a) w1)"
      by simp
    then have "discard (retrying (Suc k) a f) w
                 = discard (retrying k (Suc a) f) (sleep (wait_exponential a) w1)"
      by (rule discard_cong)
    also have "\<dots> = retrying k (Suc a) (discard f) (sleep (wait_exponential a) w1)"
      by (rule Suc.IH)
    also have "\<dots> = retrying (Suc k) a (discard f) w"
      using fw by (simp add: discard_simps)
    finally show ?thesis .
  next
    case False
    show ?thesis
    proof (cases "f w")
      case None
      then show ?thesis by (simp add: discard_def)
    next
      case (Some p)
      with False show ?thesis
        by (cases p; cases "fst p") (auto simp: discard_def)
    qed
  qed
qed

lemma discard_retry: "discard (retry f) = retry (discard f)"
  by (rule ext) (simp add: retry_def discard_retrying)

lemma decorated_method_retry: "decorated_method c = retry (method_body c)"
  by (cases c)
     (simp_all add: discard_retry get_current_asg_details_def get_current_ami_id_def
        update_auto_scaling_group_def start_instance_refresh_def wait_for_instance_refresh_def
        verify_old_instances_termination_def)

lemma result_of_evaluation: "map_option fst X = Some r \<Longrightarrow> X = Some (r, snd (the X))"
  by (cases X) auto

text \<open>
  C3, as the spec states it, fails: after three throttled attempts it is not the last
  \<open>ClientError\<close> that reaches the caller of \<open>get_current_asg_details\<close> but the
  decorator's \<open>RetryError\<close>.
\<close>

theorem last_transient_error_propagates_counterexample:
  "map_option fst (get_current_asg_details ''web'' world_throttled)
     = Some (Inl (RetryError (ClientError ''ServiceUnavailable'')))
   \<and> map_option fst (get_current_asg_details ''web'' world_throttled)
     \<noteq> Some (Inl (ClientError ''ServiceUnavailable''))"
proof -
  have raised: "map_option fst (get_current_asg_details ''web'' world_throttled)
     = Some (Inl (RetryError (ClientError ''ServiceUnavailable'')))"
    by code_simp
  show ?thesis unfolding raised by simp
qed

text \<open>
  C3, amended. For each of the six decorated methods: when three executions in a row
  of the method fail with a \<open>ClientError\<close>, the second after a wait of
  \<open>min(10, max(2, 2^(1-1)))\<close> and the third after a wait of \<open>min(10, max(2, 2^(2-1)))\<close>,
  the call ends with the third execution and raises \<open>RetryError\<close> carrying the third
  error; when an execution fails with an exception that is no \<open>ClientError\<close>, the call
  ends with that execution and raises that exception.
\<close>

theorem retry_policy_of_decorated_methods:
  "(method_body c w = Some (Inl e1, w1) \<and> is_ClientError e1
      \<and> method_body c (sleep (min 10 (max 2 (2 ^ (1 - 1)))) w1) = Some (Inl e2, w2)
      \<and> is_ClientError e2
      \<and> method_body c (sleep (min 10 (max 2 (2 ^ (2 - 1)))) w2) = Some (Inl e3, w3)
      \<and> is_ClientError e3
    \<longrightarrow> decorated_method c w = Some (Inl (RetryError e3), w3))
   \<and> (method_body c v = Some (Inl e, v1) \<and> \<not> is_ClientError e
    \<longrightarrow> decorated_method c v = Some (Inl e, v1))"
proof (intro conjI impI)
  assume a: "method_body c w = Some (Inl e1, w1) \<and> is_ClientError e1
      \<and> method_body c (sleep (min 10 (max 2 (2 ^ (1 - 1)))) w1) = Some (Inl e2, w2)
      \<and> is_ClientError e2
      \<and> method_body c (sleep (min 10 (max 2 (2 ^ (2 - 1)))) w2) = Some (Inl e3, w3)
      \<and> is_ClientError e3"
  have waits: "min 10 (max 2 (2 ^ (1 - 1))) = wait_exponential 1"
    "min 10 (max 2 (2 ^ (2 - 1))) = wait_exponential 2"
    by (simp_all add: wait_exponential_def)
  from a [unfolded waits] have "retry (method_body c) w = Some (Inl (RetryError e3), w3)"
    by (blast intro: retry_exhausted)
  then show "decorated_method c w = Some (Inl (RetryError e3), w3)"
    by (simp add: decorated_method_retry)
next
  assume "method_body c v = Some (Inl e, v1) \<and> \<not> is_ClientError e"
  then have "retry (method_body c) v = Some (Inl e, v1)"
    by (simp add: retry_not_retried)
  then show "decorated_method c v = Some (Inl e, v1)"
    by (simp add: decorated_method_retry)
qed

theorem retry_policy_of_decorated_methods_witness:
  "\<exists>w1 w2 w3 v1.
     method_body (GetCurrentAsgDetails ''web'') world_throttled
       = Some (Inl (ClientError ''Throttling''), w1)
     \<and> is_ClientError (ClientError ''Throttling'')
     \<and> method_body (GetCurrentAsgDetails ''web'') (sleep 2 w1)
         = Some (Inl (ClientError ''Throttling''), w2)
     \<and> method_body (GetCurrentAsgDetails ''web'') (sleep 2 w2)
         = Some (Inl (ClientError ''ServiceUnavailable''), w3)
     \<and> is_ClientError (ClientError ''ServiceUnavailable'')
     \<and> decorated_method (GetCurrentAsgDetails ''web'') world_throttled
         = Some (Inl (RetryError (ClientError ''ServiceUnavailable'')), w3)
     \<and> io_of (trace w3) =
          [Call (DescribeAutoScalingGroups ''web''), Sleep 2,
           Call (DescribeAutoScalingGroups ''web''), Sleep 2,
           Call (DescribeAutoScalingGroups ''web'')]
     \<and> method_body (GetCurrentAsgDetails ''web'') world_no_group = Some (Inl ValueError, v1)
     \<and> \<not> is_ClientError ValueError
     \<and> decorated_method (GetCurrentAsgDetails ''web'') world_no_group
         = Some (Inl ValueError, v1)
     \<and> io_of (trace v1) = [Call (DescribeAutoScalingGroups ''web'')]"
proof -
  let ?c = "GetCurrentAsgDetails ''web''"
  let ?w1 = "snd (the (method_body ?c world_throttled))"
  let ?w2 = "snd (the (method_body ?c (sleep 2 ?w1)))"
  let ?w3 = "snd (the (method_body ?c (sleep 2 ?w2)))"
  let ?v1 = "snd (the (method_body ?c world_no_group))"
  have waits: "min 10 (max 2 (2 ^ (1 - 1))) = (2::nat)" "min 10 (max 2 (2 ^ (2 - 1))) = (2::nat)"
    by simp_all
  have "map_option fst (method_body ?c world_throttled) = Some (Inl (ClientError ''Throttling''))"
    by code_simp
  then have 1: "method_body ?c world_throttled = Some (Inl (ClientError ''Throttling''), ?w1)"
    by (rule result_of_evaluation)
  have "map_option fst (method_body ?c (sleep 2 ?w1)) = Some (Inl (ClientError ''Throttling''))"
    by code_simp
  then have 2: "method_body ?c (sleep 2 ?w1) = Some (Inl (ClientError ''Throttling''), ?w2)"
    by (rule result_of_evaluation)
  have "map_option fst (method_body ?c (sleep 2 ?w2))
          = Some (Inl (ClientError ''ServiceUnavailable''))"
    by code_simp
  then have 3: "method_body ?c (sleep 2 ?w2) = Some (Inl (ClientError ''ServiceUnavailable''), ?w3)"
    by (rule result_of_evaluation)
  have "map_option fst (method_body ?c world_no_group) = Some (Inl ValueError)"
    by code_simp
  then have 4: "method_body ?c world_no_group = Some (Inl ValueError, ?v1)"
    by (rule result_of_evaluation)
  have io3: "io_of (trace ?w3) =
          [Call (DescribeAutoScalingGroups ''web''), Sleep 2,
           Call (DescribeAutoScalingGroups ''web''), Sleep 2,
           Call (DescribeAutoScalingGroups ''web'')]"
    by code_simp
  have io1: "io_of (trace ?v1) = [Call (DescribeAutoScalingGroups ''web'')]"
    by code_simp
  note policy = retry_policy_of_decorated_methods
      [where c = ?c and w = world_throttled and ?e1.0 = "ClientError ''Throttling''"
         and ?w1.0 = ?w1 and ?e2.0 = "ClientError ''Throttling''" and ?w2.0 = ?w2
         and ?e3.0 = "ClientError ''ServiceUnavailable''" and ?w3.0 = ?w3
         and v = world_no_group and e = ValueError and ?v1.0 = ?v1, unfolded waits]
  from policy 1 2 3 4
  have "decorated_method ?c world_throttled
          = Some (Inl (RetryError (ClientError ''ServiceUnavailable'')), ?w3)"
    and "decorated_method ?c world_no_group = Some (Inl ValueError, ?v1)"
    by simp_all
  with 1 2 3 4 io3 io1 show ?thesis
    by (intro exI [of _ ?w1] exI [of _ ?w2] exI [of _ ?w3] exI [of _ ?v1]) simp
qed

section \<open>Transient failures inside a method\<close>

text \<open>
  C2, as the spec states it, fails: when the update of the group is throttled once, the
  decorator runs the whole method again; it creates a second launch template version,
  updates the group a second time and returns the second version's number.
\<close>

theorem update_auto_scaling_group_exactly_one_version_counterexample:
  "map_option (\<lambda>p. (fst p, mutating_calls (trace (snd p))))
     (update_auto_scaling_group asg_v1 ''ami-v2'' 2 2 2 world_update_throttled)
   = Some (Inr (Some (VersionNumber 9)),
       [CreateLaunchTemplateVersion ''lt-1'' ''7'' ''ami-v2'',
        UpdateAutoScalingGroup ''web'' 2 2 2
          (Some \<lparr>LaunchTemplateId = ''lt-1'', Version = ''8''\<rparr>),
        CreateLaunchTemplateVersion ''lt-1'' ''7'' ''ami-v2'',
        UpdateAutoScalingGroup ''web'' 2 2 2
          (Some \<lparr>LaunchTemplateId = ''lt-1'', Version = ''9''\<rparr>)])"
  by code_simp

text \<open>
  C5, as the spec states it, fails: when the termination of the first of two old
  instances is throttled, the \<open>for\<close> loop is left, the second instance gets no
  termination request and the sleep of 30 is not made; the decorator waits 2 and runs
  the method again, which lists once more and returns.
\<close>

theorem verify_old_instances_termination_every_instance_counterexample:
  "old_instances_of ''web'' listing_two_draining
     = [\<lparr>InstanceId = ''i-1'', InstanceGroupName = ''web'', LifecycleState = ''Terminating''\<rparr>,
        \<lparr>InstanceId = ''i-4'', InstanceGroupName = ''web'', LifecycleState = ''Terminating''\<rparr>]
   \<and> map_option (\<lambda>p. (fst p, io_of (trace (snd p))))
         (verify_old_instances_termination ''web'' world_termination_throttled)
       = Some (Inr (),
           [Call DescribeAutoScalingInstances, Call (TerminateInstances ''i-1''), Sleep 2,
            Call DescribeAutoScalingInstances])"
  by code_simp

section \<open>A run that needs no update\<close>

lemma only_calls_simps [simp]:
  "only_calls C (Call c) = (c \<in> C)" "only_calls C (Sleep n)"
  "only_calls C (Log lg lv msg args) = (lg = RootLogger)"
  by (simp_all add: only_calls_def)

lemma only_calls_set: "list_all (only_calls C) evs \<Longrightarrow> set (calls_of evs) \<subseteq> C"
proof (induction evs)
  case Nil
  then show ?case by simp
next
  case (Cons e evs)
  then show ?case by (cases e) auto
qed

lemma only_calls_calls_of:
  assumes "extends (only_calls C) w w'"
  shows "set (calls_of (trace w')) \<subseteq> set (calls_of (trace w)) \<union> C"
proof -
  from assms obtain evs where "trace w' = trace w @ evs" "list_all (only_calls C) evs"
    by (auto simp: extends_iff)
  with only_calls_set [of C evs] show ?thesis by auto
qed

lemma get_current_asg_details_only_calls:
  assumes "get_current_asg_details n w = Some (r, w')"
  shows "extends (only_calls {DescribeAutoScalingGroups n}) w w'"
  using assms unfolding get_current_asg_details_def
proof (rule retry_extends [rotated 2])
  fix v r v'
  assume "get_current_asg_details_body n v = Some (r, v')"
  then show "extends (only_calls {DescribeAutoScalingGroups n}) v v'"
    by (auto simp: get_current_asg_details_body_def except_ClientError_def extends_iff log_defs
        split: option.splits sum.splits list.splits if_splits dest!: remote_call_trace(1))
qed simp

lemma get_current_ami_id_only_calls:
  assumes "get_current_ami_id l v w = Some (r, w')"
  shows "extends (only_calls {DescribeLaunchTemplateVersions l v}) w w'"
  using assms unfolding get_current_ami_id_def
proof (rule retry_extends [rotated 2])
  fix u r u'
  assume "get_current_ami_id_body l v u = Some (r, u')"
  then show "extends (only_calls {DescribeLaunchTemplateVersions l v}) u u'"
    by (auto simp: get_current_ami_id_body_def except_ClientError_def extends_iff log_defs
        split: option.splits sum.splits list.splits if_splits dest!: remote_call_trace(2))
qed simp

text \<open>
  C1. When the group is retrieved, the image resolved from its launch template is the
  target image and its three capacities are the target capacities,
  \<open>update_auto_scaling_group\<close> returns \<open>None\<close> and the run returns with no mutating call
  made: the remote calls of the whole run are lookups of the group and of the launch
  template version, so no refresh is started, no refresh status is queried and no
  instance is listed or terminated.
\<close>

theorem no_update_required_is_a_no_op:
  assumes "get_current_asg_details (auto_scaling_group cfg)
             (initialize_aws_sdk (logger_info ''Starting deployment process'' [] w0))
           = Some (Inr asg, ws)"
    and "LaunchTemplate asg = Some lt"
    and "get_current_ami_id (LaunchTemplateId lt) (Version lt)
           (logging_info
              ''Checking if Auto Scaling Group needs to be updated with new AMI or capacity settings''
              [] (logger_info ''ASG Details: {current_asg_details}'' [A asg] ws))
         = Some (Inr (ami_id cfg), w1)"
    and "DesiredCapacity asg = desired_capacity cfg"
    and "MinSize asg = min_size cfg"
    and "MaxSize asg = max_size cfg"
  shows "update_auto_scaling_group asg (ami_id cfg) (desired_capacity cfg) (min_size cfg)
           (max_size cfg) (logger_info ''ASG Details: {current_asg_details}'' [A asg] ws)
         = Some (Inr None,
             logging_info
               ''AMI ID, desired capacity, min size, and max size have not changed, no update required''
               [] w1)
       \<and> mutating_calls (trace w1) = mutating_calls (trace ws)
       \<and> (\<exists>w'. run cfg w0 = Some (Inr (), w')
             \<and> mutating_calls (trace w') = mutating_calls (trace w0)
             \<and> set (calls_of (trace w')) \<subseteq> set (calls_of (trace w0))
                  \<union> {DescribeAutoScalingGroups (auto_scaling_group cfg),
                      DescribeLaunchTemplateVersions (LaunchTemplateId lt) (Version lt)})"
proof -
  let ?w = "logger_info ''ASG Details: {current_asg_details}'' [A asg] ws"
  let ?w2 = "logging_info
      ''AMI ID, desired capacity, min size, and max size have not changed, no update required''
      [] w1"
  let ?w3 = "logger_info
      ''No update required, AMI ID, desired capacity, min size, and max size have not changed''
      [] ?w2"
  let ?w4 = "logger_info ''Deployment process completed successfully'' [] ?w3"
  have "update_auto_scaling_group_body asg (ami_id cfg) (desired_capacity cfg) (min_size cfg)
          (max_size cfg) ?w = Some (Inr None, ?w2)"
    using assms(2-6) by (rule update_auto_scaling_group_body_unchanged)
  then have upd: "update_auto_scaling_group asg (ami_id cfg) (desired_capacity cfg)
          (min_size cfg) (max_size cfg) ?w = Some (Inr None, ?w2)"
    unfolding update_auto_scaling_group_def by (rule retry_Inr)
  then have "run_update cfg asg ?w = Some (Inr (), ?w3)"
    by (simp add: run_update_def)
  with assms(1) have run: "run cfg w0 = Some (Inr (), ?w4)"
    by (simp add: run_def)
  have m1: "mutating_calls (trace ws) = mutating_calls (trace w0)"
    using extends_lookup_mutating_calls [OF get_current_asg_details_lookup [OF assms(1)]]
    by simp
  have m2: "mutating_calls (trace w1) = mutating_calls (trace ws)"
    using resolved_image_mutating_calls [OF assms(3)] by simp
  have c1: "set (calls_of (trace ws)) \<subseteq> set (calls_of (trace w0))
              \<union> {DescribeAutoScalingGroups (auto_scaling_group cfg)}"
    using only_calls_calls_of [OF get_current_asg_details_only_calls [OF assms(1)]]
    by simp
  have c2: "set (calls_of (trace w1)) \<subseteq> set (calls_of (trace ws))
              \<union> {DescribeLaunchTemplateVersions (LaunchTemplateId lt) (Version lt)}"
    using only_calls_calls_of [OF get_current_ami_id_only_calls [OF assms(3)]]
    by simp
  have "mutating_calls (trace ?w4) = mutating_calls (trace w0)"
    using m1 m2 by simp
  moreover have "set (calls_of (trace ?w4)) \<subseteq> set (calls_of (trace w0))
                  \<union> {DescribeAutoScalingGroups (auto_scaling_group cfg),
                      DescribeLaunchTemplateVersions (LaunchTemplateId lt) (Version lt)}"
    using c1 c2 by auto
  ultimately show ?thesis using upd m2 run by blast
qed

theorem no_update_required_is_a_no_op_witness:
  "\<exists>ws w1.
     get_current_asg_details (auto_scaling_group config_v1)
       (initialize_aws_sdk (logger_info ''Starting deployment process'' [] world_unchanged))
       = Some (Inr asg_v1, ws)
     \<and> LaunchTemplate asg_v1 = Some \<lparr>LaunchTemplateId = ''lt-1'', Version = ''7''\<rparr>
     \<and> get_current_ami_id ''lt-1'' ''7''
           (logging_info
              ''Checking if Auto Scaling Group needs to be updated with new AMI or capacity settings''
              [] (logger_info ''ASG Details: {current_asg_details}'' [A asg_v1] ws))
         = Some (Inr (ami_id config_v1), w1)
     \<and> DesiredCapacity asg_v1 = desired_capacity config_v1
     \<and> MinSize asg_v1 = min_size config_v1
     \<and> MaxSize asg_v1 = max_size config_v1
     \<and> update_auto_scaling_group asg_v1 ''ami-v1'' 1 1 1
           (logger_info ''ASG Details: {current_asg_details}'' [A asg_v1] ws)
         = Some (Inr None,
             logging_info
               ''AMI ID, desired capacity, min size, and max size have not changed, no update required''
               [] w1)
     \<and> (\<exists>w'. run config_v1 world_unchanged = Some (Inr (), w')
           \<and> mutating_calls (trace w') = []
           \<and> set (calls_of (trace w'))
                \<subseteq> {DescribeAutoScalingGroups ''web'',
                    DescribeLaunchTemplateVersions ''lt-1'' ''7''})"
proof -
  let ?lt = "\<lparr>LaunchTemplateId = ''lt-1'', Version = ''7''\<rparr>"
  let ?X = "get_current_asg_details (auto_scaling_group config_v1)
       (initialize_aws_sdk (logger_info ''Starting deployment process'' [] world_unchanged))"
  let ?ws = "snd (the ?X)"
  let ?Y = "get_current_ami_id ''lt-1'' ''7''
           (logging_info
              ''Checking if Auto Scaling Group needs to be updated with new AMI or capacity settings''
              [] (logger_info ''ASG Details: {current_asg_details}'' [A asg_v1] ?ws))"
  let ?w1 = "snd (the ?Y)"
  have "map_option fst ?X = Some (Inr asg_v1)" by code_simp
  then have 1: "?X = Some (Inr asg_v1, ?ws)" by (rule result_of_evaluation)
  have 2: "LaunchTemplate asg_v1 = Some ?lt" by (simp add: asg_v1_def)
  have "map_option fst ?Y = Some (Inr (ami_id config_v1))" by code_simp
  then have 3: "?Y = Some (Inr (ami_id config_v1), ?w1)" by (rule result_of_evaluation)
  then have cur: "get_current_ami_id (LaunchTemplateId ?lt) (Version ?lt)
           (logging_info
              ''Checking if Auto Scaling Group needs to be updated with new AMI or capacity settings''
              [] (logger_info ''ASG Details: {current_asg_details}'' [A asg_v1] ?ws))
         = Some (Inr (ami_id config_v1), ?w1)"
    by simp
  have 4: "DesiredCapacity asg_v1 = desired_capacity config_v1"
    and 5: "MinSize asg_v1 = min_size config_v1"
    and 6: "MaxSize asg_v1 = max_size config_v1"
    by (simp_all add: asg_v1_def config_v1_def)
  have cfg: "ami_id config_v1 = ''ami-v1''" "desired_capacity config_v1 = 1"
    "min_size config_v1 = 1" "max_size config_v1 = 1" "auto_scaling_group config_v1 = ''web''"
    by (simp_all add: config_v1_def)
  have tr: "trace world_unchanged = []"
    by (simp add: world_unchanged_def empty_world_def)
  from no_update_required_is_a_no_op [OF 1 2 cur 4 5 6]
  have "update_auto_scaling_group asg_v1 ''ami-v1'' 1 1 1
           (logger_info ''ASG Details: {current_asg_details}'' [A asg_v1] ?ws)
         = Some (Inr None,
             logging_info
               ''AMI ID, desired capacity, min size, and max size have not changed, no update required''
               [] ?w1)
     \<and> (\<exists>w'. run config_v1 world_unchanged = Some (Inr (), w')
           \<and> mutating_calls (trace w') = []
           \<and> set (calls_of (trace w'))
                \<subseteq> {DescribeAutoScalingGroups ''web'',
                    DescribeLaunchTemplateVersions ''lt-1'' ''7''})"
    by (simp add: cfg tr)
  with 1 2 3 4 5 6 show ?thesis by blast
qed

section \<open>A change of capacity only\<close>

text \<open>
  C6, as the spec states it, fails: when the update of the group is throttled once, the
  decorator runs the whole method again and the group is updated a second time.
\<close>

theorem update_auto_scaling_group_exactly_one_update_counterexample:
  "map_option (\<lambda>p. (fst p, mutating_calls (trace (snd p))))
     (update_auto_scaling_group asg_v1 ''ami-v1'' 3 1 5 world_scale_out_throttled)
   = Some (Inr (Some (VersionString ''7'')),
       [UpdateAutoScalingGroup ''web'' 3 1 5 None, UpdateAutoScalingGroup ''web'' 3 1 5 None])"
  by code_simp

text \<open>
  C6, amended. When the image resolved from the group's launch template is the target
  image, one of the three capacities differs from its target, and the update of the
  group succeeds at the first attempt, \<open>update_auto_scaling_group\<close> makes one mutating
  call, the update of the group with the target capacities and no launch template, so
  it creates no version; it returns the version string of the group's launch template.
  The orchestrator continues with the branch that starts the refresh: whenever that
  part of the run returns, its next mutating call after the update is the start of the
  instance refresh.
\<close>

theorem update_auto_scaling_group_capacity_only:
  assumes "LaunchTemplate asg = Some lt"
    and "get_current_ami_id (LaunchTemplateId lt) (Version lt)
           (logging_info
              ''Checking if Auto Scaling Group needs to be updated with new AMI or capacity settings''
              [] w) = Some (Inr (ami_id cfg), w1)"
    and "\<not> (DesiredCapacity asg = desired_capacity cfg \<and> MinSize asg = min_size cfg
            \<and> MaxSize asg = max_size cfg)"
    and "update_auto_scaling_group_q w1 = Inr () # uq"
  shows "\<exists>w'. update_auto_scaling_group asg (ami_id cfg) (desired_capacity cfg) (min_size cfg)
                 (max_size cfg) w
               = Some (Inr (Some (VersionString (Version lt))), w')
           \<and> mutating_calls (trace w') = mutating_calls (trace w)
                @ [UpdateAutoScalingGroup (AutoScalingGroupName asg) (desired_capacity cfg)
                     (min_size cfg) (max_size cfg) None]
           \<and> run_update cfg asg w = run_refresh cfg (VersionString (Version lt)) w'
           \<and> (run_update cfg asg w = Some (r, w2) \<longrightarrow>
                prefix (mutating_calls (trace w')
                          @ [StartInstanceRefresh (auto_scaling_group cfg) (instance_refresh cfg)])
                       (mutating_calls (trace w2)))"
proof -
  from update_auto_scaling_group_body_capacity_only [OF assms] obtain w' where
    b: "update_auto_scaling_group_body asg (ami_id cfg) (desired_capacity cfg) (min_size cfg)
          (max_size cfg) w = Some (Inr (Some (VersionString (Version lt))), w')"
    and t: "trace w' = trace w1
              @ [Log RootLogger INFO ''Updating Auto Scaling Group with new settings'' [],
                 Call (UpdateAutoScalingGroup (AutoScalingGroupName asg) (desired_capacity cfg)
                         (min_size cfg) (max_size cfg) None)]"
    by blast
  from b have u: "update_auto_scaling_group asg (ami_id cfg) (desired_capacity cfg)
          (min_size cfg) (max_size cfg) w = Some (Inr (Some (VersionString (Version lt))), w')"
    unfolding update_auto_scaling_group_def by (rule retry_Inr)
  have m: "mutating_calls (trace w') = mutating_calls (trace w)
                @ [UpdateAutoScalingGroup (AutoScalingGroupName asg) (desired_capacity cfg)
                     (min_size cfg) (max_size cfg) None]"
    using t resolved_image_mutating_calls [OF assms(2)] by simp
  have r: "run_update cfg asg w = run_refresh cfg (VersionString (Version lt)) w'"
    using u by (simp add: run_update_def)
  have "prefix (mutating_calls (trace w')
                  @ [StartInstanceRefresh (auto_scaling_group cfg) (instance_refresh cfg)])
               (mutating_calls (trace w2))"
    if "run_update cfg asg w = Some (r, w2)"
  proof -
    from that r have "run_refresh cfg (VersionString (Version lt)) w' = Some (r, w2)"
      by simp
    from run_refresh_first_call [OF this] show ?thesis
      by (auto simp: prefix_def)
  qed
  with u m r show ?thesis by blast
qed

theorem update_auto_scaling_group_capacity_only_witness:
  "\<exists>w1 w' w2.
     LaunchTemplate asg_v1 = Some \<lparr>LaunchTemplateId = ''lt-1'', Version = ''7''\<rparr>
     \<and> get_current_ami_id ''lt-1'' ''7''
           (logging_info
              ''Checking if Auto Scaling Group needs to be updated with new AMI or capacity settings''
              [] world_scale_out) = Some (Inr (ami_id config_scale_out), w1)
     \<and> \<not> (DesiredCapacity asg_v1 = desired_capacity config_scale_out
            \<and> MinSize asg_v1 = min_size config_scale_out
            \<and> MaxSize asg_v1 = max_size config_scale_out)
     \<and> update_auto_scaling_group_q w1 = Inr () # []
     \<and> update_auto_scaling_group asg_v1 ''ami-v1'' 3 1 5 world_scale_out
         = Some (Inr (Some (VersionString ''7'')), w')
     \<and> mutating_calls (trace w') = [UpdateAutoScalingGroup ''web'' 3 1 5 None]
     \<and> run_update config_scale_out asg_v1 world_scale_out = Some (Inr (), w2)
     \<and> prefix [UpdateAutoScalingGroup ''web'' 3 1 5 None,
                StartInstanceRefresh ''web'' refresh_prefs]
               (mutating_calls (trace w2))"
proof -
  let ?lt = "\<lparr>LaunchTemplateId = ''lt-1'', Version = ''7''\<rparr>"
  let ?Y = "get_current_ami_id ''lt-1'' ''7''
           (logging_info
              ''Checking if Auto Scaling Group needs to be updated with new AMI or capacity settings''
              [] world_scale_out)"
  let ?w1 = "snd (the ?Y)"
  let ?R = "run_update config_scale_out asg_v1 world_scale_out"
  let ?w2 = "snd (the ?R)"
  have 1: "LaunchTemplate asg_v1 = Some ?lt" by (simp add: asg_v1_def)
  have "map_option fst ?Y = Some (Inr (ami_id config_scale_out))" by code_simp
  then have 2: "?Y = Some (Inr (ami_id config_scale_out), ?w1)" by (rule result_of_evaluation)
  then have cur: "get_current_ami_id (LaunchTemplateId ?lt) (Version ?lt)
           (logging_info
              ''Checking if Auto Scaling Group needs to be updated with new AMI or capacity settings''
              [] world_scale_out) = Some (Inr (ami_id config_scale_out), ?w1)"
    by simp
  have 3: "\<not> (DesiredCapacity asg_v1 = desired_capacity config_scale_out
            \<and> MinSize asg_v1 = min_size config_scale_out
            \<and> MaxSize asg_v1 = max_size config_scale_out)"
    by (simp add: asg_v1_def config_scale_out_def)
  have 4: "update_auto_scaling_group_q ?w1 = Inr () # []" by code_simp
  have "map_option fst ?R = Some (Inr ())" by code_simp
  then have 5: "?R = Some (Inr (), ?w2)" by (rule result_of_evaluation)
  have cfg: "ami_id config_scale_out = ''ami-v1''" "desired_capacity config_scale_out = 3"
    "min_size config_scale_out = 1" "max_size config_scale_out = 5"
    "auto_scaling_group config_scale_out = ''web''"
    "instance_refresh config_scale_out = refresh_prefs"
    by (simp_all add: config_scale_out_def)
  have tr: "trace world_scale_out = []"
    by (simp add: world_scale_out_def empty_world_def)
  have name: "AutoScalingGroupName asg_v1 = ''web''" by (simp add: asg_v1_def)
  from update_auto_scaling_group_capacity_only [OF 1 cur 3 4, of "Inr ()" ?w2] 5
  obtain w' where
    "update_auto_scaling_group asg_v1 ''ami-v1'' 3 1 5 world_scale_out
         = Some (Inr (Some (VersionString ''7'')), w')"
    "mutating_calls (trace w') = [UpdateAutoScalingGroup ''web'' 3 1 5 None]"
    "prefix [UpdateAutoScalingGroup ''web'' 3 1 5 None,
             StartInstanceRefresh ''web'' refresh_prefs]
            (mutating_calls (trace ?w2))"
    by (auto simp: cfg tr name)
  with 1 2 3 4 5 show ?thesis by blast
qed

section \<open>The success marker\<close>



lemma extends_from_empty:
  "extends P w w' \<Longrightarrow> trace w = [] \<Longrightarrow> list_all P (trace w')"
  by (auto simp: extends_iff)




section \<open>A failing stage\<close>

text \<open>
  C9, as the spec states it, fails: when the group is not found the run logs the error
  and returns, and the process ends with status 0, as it does after a run that succeeds.
\<close>

theorem failed_run_outcome_counterexample:
  "map_option
     (\<lambda>p. (fst p, success_marker \<in> set (trace (snd p)),
           Log DeploymentLogger ERROR ''Error retrieving ASG details: {e}'' [E ValueError]
             \<in> set (trace (snd p))))
     (main config_v1 world_no_group)
   = Some (0, False, True)
   \<and> map_option (\<lambda>p. (fst p, success_marker \<in> set (trace (snd p))))
        (main config_v1 world_unchanged)
      = Some (0, True)"
  by code_simp

text \<open>
  C9, amended. When a stage of the run raises, the run ends there: no later stage is
  attempted and nothing more is done but, at most, one error line of the orchestrator.
  A \<open>ValueError\<close> of the retrieval and any exception of a later stage are logged by the
  orchestrator, which returns, and the process ends with status 0; any other exception
  of the retrieval leaves \<open>run\<close> and the process ends with status 1. A retrieval that
  raises has made no mutating call.
\<close>

theorem run_stops_at_the_failing_stage:
  assumes "stage_fails cfg w s e wx"
  shows "run cfg w =
           (if s = RetrieveGroup \<and> e \<noteq> ValueError then Some (Inl e, wx)
            else Some (Inr (),
                   logger_error
                     (if s = RetrieveGroup then ''Error retrieving ASG details: {e}''
                      else ''Error updating ASG with new AMI: {e}'')
                     [E e] wx))
       \<and> map_option fst (main cfg w)
           = Some (if s = RetrieveGroup \<and> e \<noteq> ValueError then 1 else 0)
       \<and> (s = RetrieveGroup \<longrightarrow> mutating_calls (trace wx) = mutating_calls (trace w))"
  using assms
proof cases
  case retrieve_fails
  from retrieve_fails(2)
  have "mutating_calls (trace wx) = mutating_calls (trace w)"
    using extends_lookup_mutating_calls [OF get_current_asg_details_lookup] by fastforce
  with retrieve_fails show ?thesis
    by (simp add: run_def main_def exit_status_def)
next
  case (update_fails asg w1)
  then show ?thesis
    by (simp add: run_def run_update_def main_def exit_status_def)
next
  case (start_fails asg w1 v w2)
  then show ?thesis
    by (simp add: run_def run_update_def run_refresh_def main_def exit_status_def)
next
  case (wait_fails asg w1 v w2 rid w3)
  then show ?thesis
    by (simp add: run_def run_update_def run_refresh_def main_def exit_status_def)
next
  case (verify_fails asg w1 v w2 rid w3 u w4)
  then show ?thesis
    by (simp add: run_def run_update_def run_refresh_def main_def exit_status_def)
qed

theorem run_stops_at_the_failing_stage_witness:
  "(\<exists>wx. stage_fails config_v1 world_no_group RetrieveGroup ValueError wx
      \<and> run config_v1 world_no_group
          = Some (Inr (), logger_error ''Error retrieving ASG details: {e}'' [E ValueError] wx)
      \<and> map_option fst (main config_v1 world_no_group) = Some 0
      \<and> mutating_calls (trace wx) = mutating_calls (trace world_no_group)
      \<and> calls_of (trace wx) = [DescribeAutoScalingGroups ''web''])
   \<and> (\<exists>wy. stage_fails config_scale_out world_refresh_query_fails WaitForRefresh
             (OtherError ''ReadTimeout'') wy
      \<and> run config_scale_out world_refresh_query_fails
          = Some (Inr (),
              logger_error ''Error updating ASG with new AMI: {e}''
                [E (OtherError ''ReadTimeout'')] wy)
      \<and> map_option fst (main config_scale_out world_refresh_query_fails) = Some 0
      \<and> calls_of (trace wy) =
           [DescribeAutoScalingGroups ''web'', DescribeLaunchTemplateVersions ''lt-1'' ''7'',
            UpdateAutoScalingGroup ''web'' 3 1 5 None,
            StartInstanceRefresh ''web'' refresh_prefs,
            DescribeInstanceRefreshes ''web'' ''refresh-1''])"
proof -
  let ?X = "get_current_asg_details (auto_scaling_group config_v1)
       (initialize_aws_sdk (logger_info ''Starting deployment process'' [] world_no_group))"
  let ?wx = "snd (the ?X)"
  have "map_option fst ?X = Some (Inl ValueError)" by code_simp
  then have "?X = Some (Inl ValueError, ?wx)" by (rule result_of_evaluation)
  then have f: "stage_fails config_v1 world_no_group RetrieveGroup ValueError ?wx"
    by (rule stage_fails.retrieve_fails)
  have c: "calls_of (trace ?wx) = [DescribeAutoScalingGroups ''web'']" by code_simp
  from run_stops_at_the_failing_stage [OF f] f c
  have first: "\<exists>wx. stage_fails config_v1 world_no_group RetrieveGroup ValueError wx
      \<and> run config_v1 world_no_group
          = Some (Inr (), logger_error ''Error retrieving ASG details: {e}'' [E ValueError] wx)
      \<and> map_option fst (main config_v1 world_no_group) = Some 0
      \<and> mutating_calls (trace wx) = mutating_calls (trace world_no_group)
      \<and> calls_of (trace wx) = [DescribeAutoScalingGroups ''web'']"
    by (intro exI [of _ ?wx]) simp
  let ?cfg = config_scale_out
  let ?X1 = "get_current_asg_details (auto_scaling_group ?cfg)
       (initialize_aws_sdk
          (logger_info ''Starting deployment process'' [] world_refresh_query_fails))"
  let ?w1 = "snd (the ?X1)"
  let ?X2 = "update_auto_scaling_group asg_v1 (ami_id ?cfg) (desired_capacity ?cfg)
       (min_size ?cfg) (max_size ?cfg)
       (logger_info ''ASG Details: {current_asg_details}'' [A asg_v1] ?w1)"
  let ?w2 = "snd (the ?X2)"
  let ?X3 = "start_instance_refresh (auto_scaling_group ?cfg) (instance_refresh ?cfg)
       (logger_info ''ASG updated to use new launch template version: {new_version}''
          [V (VersionString ''7'')] ?w2)"
  let ?w3 = "snd (the ?X3)"
  let ?X4 = "wait_for_instance_refresh (auto_scaling_group ?cfg) ''refresh-1''
       (logger_info ''Started instance refresh with ID: {instance_refresh_id}''
          [S ''refresh-1''] ?w3)"
  let ?wy = "snd (the ?X4)"
  have "map_option fst ?X1 = Some (Inr asg_v1)" by code_simp
  then have 1: "?X1 = Some (Inr asg_v1, ?w1)" by (rule result_of_evaluation)
  have "map_option fst ?X2 = Some (Inr (Some (VersionString ''7'')))" by code_simp
  then have 2: "?X2 = Some (Inr (Some (VersionString ''7'')), ?w2)"
    by (rule result_of_evaluation)
  have "map_option fst ?X3 = Some (Inr ''refresh-1'')" by code_simp
  then have 3: "?X3 = Some (Inr ''refresh-1'', ?w3)" by (rule result_of_evaluation)
  have "map_option fst ?X4 = Some (Inl (OtherError ''ReadTimeout''))" by code_simp
  then have 4: "?X4 = Some (Inl (OtherError ''ReadTimeout''), ?wy)"
    by (rule result_of_evaluation)
  from 1 2 3 4
  have g: "stage_fails ?cfg world_refresh_query_fails WaitForRefresh
             (OtherError ''ReadTimeout'') ?wy"
    by (rule stage_fails.wait_fails)
  have d: "calls_of (trace ?wy) =
           [DescribeAutoScalingGroups ''web'', DescribeLaunchTemplateVersions ''lt-1'' ''7'',
            UpdateAutoScalingGroup ''web'' 3 1 5 None,
            StartInstanceRefresh ''web'' refresh_prefs,
            DescribeInstanceRefreshes ''web'' ''refresh-1'']"
    by code_simp
  from run_stops_at_the_failing_stage [OF g] g d
  have "\<exists>wy. stage_fails config_scale_out world_refresh_query_fails WaitForRefresh
             (OtherError ''ReadTimeout'') wy
      \<and> run config_scale_out world_refresh_query_fails
          = Some (Inr (),
              logger_error ''Error updating ASG with new AMI: {e}''
                [E (OtherError ''ReadTimeout'')] wy)
      \<and> map_option fst (main config_scale_out world_refresh_query_fails) = Some 0
      \<and> calls_of (trace wy) =
           [DescribeAutoScalingGroups ''web'', DescribeLaunchTemplateVersions ''lt-1'' ''7'',
            UpdateAutoScalingGroup ''web'' 3 1 5 None,
            StartInstanceRefresh ''web'' refresh_prefs,
            DescribeInstanceRefreshes ''web'' ''refresh-1'']"
    by (intro exI [of _ ?wy]) simp
  with first show ?thesis by blast
qed

section \<open>What the decorator retries\<close>





end
